theory Spec2Isabelle
  imports Complex_Main "HOL-Library.AList" "HOL-Library.Sublist"
begin

section \<open>The key resolver of \<^verbatim>\<open>muon/_atac/plot.py\<close>\<close>

text \<open>
  The module has one function with control flow of its own, \<^verbatim>\<open>_average_peaks\<close>
  (lines 12 to 75); the plot functions only forward to it. This theory embeds that
  function and proves what the specification says about it.

  Matrix entries are rationals, so a mean is the exact arithmetic mean; the rounding of
  numpy's floating point numbers is outside the model.
\<close>

subsection \<open>Data model\<close>

text \<open>
  A row of \<^verbatim>\<open>adata.uns["atac"]["peak_annotation"]\<close>: the index value (the gene
  name) and the columns \<^verbatim>\<open>peak\<close> and \<^verbatim>\<open>peak_type\<close>.
\<close>

record peak_row =
  gene :: string
  peak :: string
  peak_type :: string

text \<open>
  \<^verbatim>\<open>adata.raw\<close>: a matrix on the same observations, with a feature axis of its own.
\<close>

record raw_data =
  raw_var_names :: "string list"
  raw_X :: "nat \<Rightarrow> nat \<Rightarrow> rat"

text \<open>
  The parts of an \<^verbatim>\<open>AnnData\<close> object the resolver reads. \<open>X adata i j\<close> is the entry
  of observation \<open>i\<close> (a position in \<open>obs_names\<close>) and feature \<open>j\<close> (a position in
  \<open>var_names\<close>); the shape of the matrix is given by the two axes, as AnnData enforces.
  \<open>raw\<close> is \<open>None\<close> when the object has no raw matrix. \<open>uns_atac\<close> is \<open>None\<close> when
  \<^verbatim>\<open>'atac'\<close> is not in \<^verbatim>\<open>adata.uns\<close>, \<open>Some None\<close> when it is there without a
  \<^verbatim>\<open>'peak_annotation'\<close> entry, and \<open>Some (Some rows)\<close> otherwise.
\<close>

record anndata =
  obs_names :: "string list"
  obs_columns :: "string list"
  var_names :: "string list"
  X :: "nat \<Rightarrow> nat \<Rightarrow> rat"
  raw :: "raw_data option"
  uns_atac :: "peak_row list option option"

text \<open>
  The argument \<^verbatim>\<open>average\<close> is compared with strings, with \<^verbatim>\<open>None\<close>, with
  \<^verbatim>\<open>False\<close> and with \<^verbatim>\<open>-1\<close>, so the model has Python's \<^verbatim>\<open>None\<close>, booleans,
  integers and strings.
\<close>

datatype average = AvgNone | AvgBool bool | AvgInt int | AvgStr string

text \<open>
  What the resolver can raise.
  \<^item> \<open>KeyError msg\<close>: line 23, with the message of the f-string.
  \<^item> \<open>LocKeyError key\<close>: the \<^verbatim>\<open>KeyError\<close> of pandas at line 24, when
    \<^verbatim>\<open>.loc[[key]]\<close> finds no row labelled \<open>key\<close>; its message is pandas' own.
  \<^item> \<open>RawNoneTypeError\<close>: the \<^verbatim>\<open>TypeError\<close> of \<^verbatim>\<open>adata.raw[:, peaks]\<close> at lines
    42 and 62 when \<^verbatim>\<open>adata.raw\<close> is \<^verbatim>\<open>None\<close>.
  \<^item> \<open>VarKeyError p\<close>: the \<^verbatim>\<open>KeyError\<close> of AnnData when a matrix is indexed by a
    feature name \<open>p\<close> that its feature axis does not have.
  \<^item> \<open>ValueError\<close>: line 70, when numpy cannot broadcast the two operands of
    \<^verbatim>\<open>attr_names += peak_sel.peak.values\<close>.
  \<^item> \<open>AttributeError\<close>: lines 37, 57 and 73, \<^verbatim>\<open>attr_names.append\<close> when line 70 has
    made \<^verbatim>\<open>attr_names\<close> a numpy array, which has no \<^verbatim>\<open>append\<close>.
\<close>

datatype error =
    KeyError string
  | LocKeyError string
  | RawNoneTypeError
  | VarKeyError string
  | ValueError
  | AttributeError

text \<open>
  The calls of \<^verbatim>\<open>warnings.warn\<close>: line 32 (\<^verbatim>\<open>Peaks for {key} are not found.\<close>) and
  line 69 (\<^verbatim>\<open>Plotting individual peaks since {average} was not recognised. ...\<close>).
\<close>

datatype warning = PeaksNotFound string | NotRecognised average

text \<open>
  The local state of the loop: the frame \<open>x\<close> of derived columns (column name and
  one value per observation, in column order), the lists \<open>attr_names\<close> and
  \<open>tmp_names\<close>, the warnings emitted so far, and \<open>computed\<close>, the trace of the
  assignments \<^verbatim>\<open>x[attr_name] = ... .X.mean(axis=1) ...\<close> that were executed: the
  column name and the peaks the mean was taken over. The variable \<^verbatim>\<open>attr_names\<close> starts
  as a Python list, and line 70 rebinds it to a one-dimensional numpy array of strings:
  \<open>attr_names\<close> holds the elements of either, and \<open>attr_ndarray\<close> tells that it is an
  array.
\<close>

record state =
  x :: "(string \<times> rat list) list"
  attr_names :: "string list"
  tmp_names :: "string list"
  warnings :: "warning list"
  computed :: "(string \<times> string list) list"
  attr_ndarray :: bool

subsection \<open>Selecting columns and averaging rows\<close>

fun var_index :: "string list \<Rightarrow> string \<Rightarrow> nat option" where
  "var_index [] p = None"
| "var_index (v # vs) p = (if v = p then Some 0 else map_option Suc (var_index vs p))"

text \<open>\<^verbatim>\<open>m[:, ps]\<close>: the positions of the names \<open>ps\<close> on the feature axis.\<close>

fun var_indices :: "string list \<Rightarrow> string list \<Rightarrow> error + nat list" where
  "var_indices vs [] = Inr []"
| "var_indices vs (p # ps) =
     (case var_index vs p of
        None \<Rightarrow> Inl (VarKeyError p)
      | Some j \<Rightarrow>
          (case var_indices vs ps of
             Inl e \<Rightarrow> Inl e
           | Inr js \<Rightarrow> Inr (j # js)))"

text \<open>
  The mean of one row of the selection. On an empty selection numpy gives \<^verbatim>\<open>nan\<close> and a
  warning, where the division below gives 0; the resolver never averages an empty
  selection (claim C9), so no statement depends on that value.
\<close>

definition row_mean :: "rat list \<Rightarrow> rat" where
  "row_mean vs = sum_list vs / of_nat (length vs)"

text \<open>\<^verbatim>\<open>np.asarray(m.X.mean(axis=1)).reshape(-1)\<close> on the selected columns \<open>js\<close>.\<close>

definition mean_axis1 :: "nat \<Rightarrow> (nat \<Rightarrow> nat \<Rightarrow> rat) \<Rightarrow> nat list \<Rightarrow> rat list" where
  "mean_axis1 n m js = map (\<lambda>i. row_mean (map (m i) js)) [0..<n]"

text \<open>Lines 41 to 44 and 61 to 64: the right-hand side of the assignment.\<close>

definition peaks_mean :: "anndata \<Rightarrow> bool option \<Rightarrow> string list \<Rightarrow> error + rat list" where
  "peaks_mean adata use_raw ps =
     (if use_raw = Some True then
        (case raw adata of
           None \<Rightarrow> Inl RawNoneTypeError
         | Some r \<Rightarrow>
             (case var_indices (raw_var_names r) ps of
                Inl e \<Rightarrow> Inl e
              | Inr js \<Rightarrow> Inr (mean_axis1 (length (obs_names adata)) (raw_X r) js)))
      else
        (case var_indices (var_names adata) ps of
           Inl e \<Rightarrow> Inl e
         | Inr js \<Rightarrow> Inr (mean_axis1 (length (obs_names adata)) (X adata) js)))"

subsection \<open>The resolver\<close>

definition no_annotation_message :: "string \<Rightarrow> string" where
  "no_annotation_message key =
     ''There is no feature or feature annotation '' @ key @
     ''. If it is a gene name, load peak annotation with muon.atac.pp.add_peak_annotation first.''"

text \<open>\<^verbatim>\<open>.loc[[key]]\<close>: the rows labelled \<open>key\<close>, a \<^verbatim>\<open>KeyError\<close> when there is none.\<close>

definition loc :: "peak_row list \<Rightarrow> string \<Rightarrow> error + peak_row list" where
  "loc rows key =
     (let sel = filter (\<lambda>r. gene r = key) rows
      in if sel = [] then Inl (LocKeyError key) else Inr sel)"

text \<open>
  Lines 36 to 44 and, with \<open>p\<close> for \<open>peaks\<close>, lines 56 to 64: the name is appended
  to both lists, and the column is assigned unless \<open>adata.obs\<close> has a column of that
  name. Assigning to a frame replaces a column of the same name where it stands and
  appends a new one at the end, which is \<open>AList.update\<close>. The first statement,
  \<^verbatim>\<open>attr_names.append(attr_name)\<close>, raises when \<^verbatim>\<open>attr_names\<close> is a numpy array.
\<close>

definition store_mean ::
  "anndata \<Rightarrow> bool option \<Rightarrow> state \<Rightarrow> string \<Rightarrow> string list \<Rightarrow> (error \<times> state) + state" where
  "store_mean adata use_raw s attr_name ps =
     (if attr_ndarray s then Inl (AttributeError, s)
      else
        (let s1 = s\<lparr>attr_names := attr_names s @ [attr_name],
                   tmp_names := tmp_names s @ [attr_name]\<rparr>
         in if attr_name \<notin> set (obs_columns adata) then
              (case peaks_mean adata use_raw ps of
                 Inl e \<Rightarrow> Inl (e, s1)
               | Inr col \<Rightarrow>
                   Inr (s1\<lparr>x := AList.update attr_name col (x s1),
                           computed := computed s1 @ [(attr_name, ps)]\<rparr>))
            else Inr s1))"

text \<open>
  Line 70, \<^verbatim>\<open>attr_names += peak_sel.peak.values\<close>. The right operand is a numpy array (of
  dtype object, holding the peak ids), and Python gives \<^verbatim>\<open>+=\<close> on a list to the array's
  reflected addition before the list's own extension: the statement is
  \<^verbatim>\<open>attr_names = np.add(attr_names, peak_sel.peak.values)\<close>, which adds element by
  element, here by concatenating the strings, after broadcasting the two shapes, and
  raises \<^verbatim>\<open>ValueError\<close> when they do not broadcast. \<open>np_add ls rs\<close> is that sum for
  one-dimensional operands: equal lengths, or one of them of length one. When
  \<^verbatim>\<open>attr_names\<close> is an array already, the addition is in place (\<open>np_iadd\<close>) and the
  result must have the shape of the left operand.
\<close>

definition np_add :: "string list \<Rightarrow> string list \<Rightarrow> string list option" where
  "np_add ls rs =
     (if length ls = length rs then Some (map2 (@) ls rs)
      else if length rs = 1 then Some (map (\<lambda>l. l @ hd rs) ls)
      else if length ls = 1 then Some (map (\<lambda>r. hd ls @ r) rs)
      else None)"

definition np_iadd :: "string list \<Rightarrow> string list \<Rightarrow> string list option" where
  "np_iadd ls rs =
     (if length rs = length ls then Some (map2 (@) ls rs)
      else if length rs = 1 then Some (map (\<lambda>l. l @ hd rs) ls)
      else None)"

definition add_peaks :: "state \<Rightarrow> string list \<Rightarrow> (error \<times> state) + state" where
  "add_peaks s ps =
     (case (if attr_ndarray s then np_iadd (attr_names s) ps else np_add (attr_names s) ps) of
        None \<Rightarrow> Inl (ValueError, s)
      | Some ns \<Rightarrow> Inr (s\<lparr>attr_names := ns, attr_ndarray := True\<rparr>))"

text \<open>
  Lines 50 to 52: \<^verbatim>\<open>peak_dict[k].append(v)\<close> on a \<^verbatim>\<open>defaultdict(list)\<close>, which keeps
  its keys in the order of their first insertion.
\<close>

fun dict_append :: "string \<Rightarrow> string \<Rightarrow> (string \<times> string list) list \<Rightarrow> (string \<times> string list) list" where
  "dict_append k v [] = [(k, [v])]"
| "dict_append k v ((k', vs) # d) =
     (if k' = k then (k', vs @ [v]) # d else (k', vs) # dict_append k v d)"

definition peak_dict :: "(string \<times> string) list \<Rightarrow> (string \<times> string list) list" where
  "peak_dict kvs = foldl (\<lambda>d (k, v). dict_append k v d) [] kvs"

text \<open>Lines 55 to 64: the loop over \<^verbatim>\<open>peak_dict.items()\<close>.\<close>

fun type_loop ::
  "anndata \<Rightarrow> bool option \<Rightarrow> string \<Rightarrow> (string \<times> string list) list \<Rightarrow> state \<Rightarrow>
     (error \<times> state) + state" where
  "type_loop adata use_raw key [] s = Inr s"
| "type_loop adata use_raw key ((t, p) # items) s =
     (case store_mean adata use_raw s (key @ '' ('' @ t @ '' peaks)'') p of
        Inl e \<Rightarrow> Inl e
      | Inr s' \<Rightarrow> type_loop adata use_raw key items s')"

text \<open>Lines 21 to 73: the body of the loop over \<open>keys\<close>, for one key.\<close>

definition process_key ::
  "anndata \<Rightarrow> average \<Rightarrow> bool option \<Rightarrow> state \<Rightarrow> string \<Rightarrow> (error \<times> state) + state" where
  "process_key adata average use_raw s key =
     (if key \<notin> set (obs_names adata) \<and> key \<notin> set (obs_columns adata) then
        (case uns_atac adata of
           None \<Rightarrow> Inl (KeyError (no_annotation_message key), s)
         | Some None \<Rightarrow> Inl (KeyError (no_annotation_message key), s)
         | Some (Some annotation) \<Rightarrow>
             (case loc annotation key of
                Inl e \<Rightarrow> Inl (e, s)
              | Inr sel \<Rightarrow>
                  (let peak_sel = filter (\<lambda>r. peak r \<in> set (var_names adata)) sel;
                       peaks = map peak peak_sel
                   in if length peaks = 0 then
                        Inr (s\<lparr>warnings := warnings s @ [PeaksNotFound key]\<rparr>)
                      else if average = AvgStr ''total'' \<or> average = AvgStr ''all'' then
                        store_mean adata use_raw s (key @ '' (all peaks)'') peaks
                      else if average = AvgStr ''peak_type'' then
                        type_loop adata use_raw key
                          (peak_dict (zip (map peak_type peak_sel) peaks)) s
                      else
                        (let s1 =
                               (if average \<noteq> AvgNone \<and> average \<noteq> AvgBool False \<and>
                                   average \<noteq> AvgInt (- 1)
                                then s\<lparr>warnings := warnings s @ [NotRecognised average]\<rparr>
                                else s)
                         in add_peaks s1 (map peak peak_sel)))))
      else if attr_ndarray s then Inl (AttributeError, s)
      else Inr (s\<lparr>attr_names := attr_names s @ [key]\<rparr>))"

text \<open>Line 20: the loop over \<open>keys\<close>; an exception ends it.\<close>

fun resolve_keys ::
  "anndata \<Rightarrow> average \<Rightarrow> bool option \<Rightarrow> string list \<Rightarrow> state \<Rightarrow> (error \<times> state) + state" where
  "resolve_keys adata average use_raw [] s = Inr s"
| "resolve_keys adata average use_raw (key # keys) s =
     (case process_key adata average use_raw s key of
        Inl e \<Rightarrow> Inl e
      | Inr s' \<Rightarrow> resolve_keys adata average use_raw keys s')"

text \<open>Lines 17 to 19: \<open>x\<close> starts as the frame of \<open>adata.obs\<close> with no column.\<close>

definition init_state :: state where
  "init_state =
     \<lparr>x = [], attr_names = [], tmp_names = [], warnings = [], computed = [],
      attr_ndarray = False\<rparr>"

text \<open>
  \<^verbatim>\<open>_average_peaks\<close>. \<open>Inr s\<close> is the return of \<open>(x s, attr_names s, tmp_names s)\<close>
  (where \<open>attr_names s\<close> is a list or, when \<open>attr_ndarray s\<close>, an array)
  with the warnings \<open>warnings s\<close> emitted; \<open>Inl (e, s)\<close> is the exception \<open>e\<close>, raised
  when the local state was \<open>s\<close> (so after the warnings \<open>warnings s\<close>).
\<close>

definition average_peaks ::
  "anndata \<Rightarrow> string list \<Rightarrow> average \<Rightarrow> bool option \<Rightarrow> (error \<times> state) + state" where
  "average_peaks adata keys average use_raw = resolve_keys adata average use_raw keys init_state"

subsection \<open>Notions the statements use\<close>

text \<open>
  The value of \<open>peak_sel\<close> after line 27, and of \<open>peaks\<close> after line 29, when the
  annotation is there: the rows labelled \<open>key\<close> whose peak is on the feature axis, and
  their peaks. \<open>aggregating\<close> holds of the modes of lines 35 and 46, in which columns are
  derived. \<open>is_direct\<close> is the negation of the test of line 21. \<open>first_seen\<close> lists
  the distinct elements of a list in the order of their first occurrence, and
  \<open>peaks_of_type\<close> the peaks paired with the label \<open>t\<close>. \<open>py_falsy\<close> is Python's
  truth value test, negated, and \<open>is_KeyError\<close> tells whether the exception is an
  instance of Python's \<^verbatim>\<open>KeyError\<close>, a lookup failure.
\<close>

definition matched_rows :: "anndata \<Rightarrow> string \<Rightarrow> peak_row list" where
  "matched_rows adata key =
     (case uns_atac adata of
        Some (Some annotation) \<Rightarrow>
          filter (\<lambda>r. peak r \<in> set (var_names adata)) (filter (\<lambda>r. gene r = key) annotation)
      | _ \<Rightarrow> [])"

definition matched_peaks :: "anndata \<Rightarrow> string \<Rightarrow> string list" where
  "matched_peaks adata key = map peak (matched_rows adata key)"

definition aggregating :: "average \<Rightarrow> bool" where
  "aggregating average =
     (average = AvgStr ''total'' \<or> average = AvgStr ''all'' \<or> average = AvgStr ''peak_type'')"

definition is_direct :: "anndata \<Rightarrow> string \<Rightarrow> bool" where
  "is_direct adata key = (key \<in> set (obs_names adata) \<or> key \<in> set (obs_columns adata))"

definition first_seen :: "'a list \<Rightarrow> 'a list" where
  "first_seen ts = rev (remdups (rev ts))"

definition peaks_of_type :: "(string \<times> string) list \<Rightarrow> string \<Rightarrow> string list" where
  "peaks_of_type kvs t = map snd (filter (\<lambda>kv. fst kv = t) kvs)"

fun py_falsy :: "average \<Rightarrow> bool" where
  "py_falsy AvgNone = True"
| "py_falsy (AvgBool b) = (\<not> b)"
| "py_falsy (AvgInt i) = (i = 0)"
| "py_falsy (AvgStr str) = (str = [])"

fun is_KeyError :: "error \<Rightarrow> bool" where
  "is_KeyError (KeyError msg) = True"
| "is_KeyError (LocKeyError k) = True"
| "is_KeyError RawNoneTypeError = False"
| "is_KeyError (VarKeyError p) = True"
| "is_KeyError ValueError = False"
| "is_KeyError AttributeError = False"

text \<open>
  What one key asks \<open>store_mean\<close> for, as a list of column names with the peaks to
  average: nothing for a direct key or a key without matched peaks, one pair in the
  modes \<^verbatim>\<open>'total'\<close> and \<^verbatim>\<open>'all'\<close> (line 36), one pair for each entry of \<open>peak_dict\<close> in
  the mode \<^verbatim>\<open>'peak_type'\<close> (line 56), nothing in any other mode.
\<close>

definition targets :: "anndata \<Rightarrow> average \<Rightarrow> string \<Rightarrow> (string \<times> string list) list" where
  "targets adata average key =
     (if is_direct adata key \<or> matched_rows adata key = [] then []
      else if average = AvgStr ''total'' \<or> average = AvgStr ''all'' then
        [(key @ '' (all peaks)'', matched_peaks adata key)]
      else if average = AvgStr ''peak_type'' then
        map (\<lambda>(t, p). (key @ '' ('' @ t @ '' peaks)'', p))
          (peak_dict (zip (map peak_type (matched_rows adata key)) (matched_peaks adata key)))
      else [])"

text \<open>
  The names one key appends to \<open>attr_names\<close> in the modes \<^verbatim>\<open>'total'\<close>, \<^verbatim>\<open>'all'\<close> and
  \<^verbatim>\<open>'peak_type'\<close> (lines 37, 57 and 73).
\<close>

definition listed :: "anndata \<Rightarrow> average \<Rightarrow> string \<Rightarrow> string list" where
  "listed adata average key =
     (if is_direct adata key then [key] else map fst (targets adata average key))"

text \<open>The local state at the end of a call, returned or raised.\<close>

definition outcome :: "(error \<times> state) + state \<Rightarrow> state" where
  "outcome r = (case r of Inl (e, s) \<Rightarrow> s | Inr s \<Rightarrow> s)"

text \<open>The column that averaging the peaks \<open>ps\<close> gives, when it gives one.\<close>

definition column_of :: "anndata \<Rightarrow> bool option \<Rightarrow> string list \<Rightarrow> rat list option" where
  "column_of adata use_raw ps =
     (case peaks_mean adata use_raw ps of Inl e \<Rightarrow> None | Inr col \<Rightarrow> Some col)"

text \<open>The test of lines 40 and 60 on a list of names with peaks.\<close>

definition not_in_obs :: "anndata \<Rightarrow> (string \<times> string list) list \<Rightarrow> (string \<times> string list) list" where
  "not_in_obs adata nps = filter (\<lambda>np. fst np \<notin> set (obs_columns adata)) nps"

text \<open>
  The invariant of the loop for claim C9: no executed assignment averaged over an empty
  list of peaks, and every column of the frame has one value per observation.
\<close>

definition means_ok :: "anndata \<Rightarrow> state \<Rightarrow> bool" where
  "means_ok adata s =
     ((\<forall>np \<in> set (computed s). snd np \<noteq> []) \<and>
      (\<forall>c \<in> set (x s). length (snd c) = length (obs_names adata)))"

text \<open>
  One executed assignment \<^verbatim>\<open>x[attr_name] = ...\<close> of the trace, replayed on a frame: the
  column of the name is set to the mean over the peaks.
\<close>

definition assign ::
  "anndata \<Rightarrow> bool option \<Rightarrow> (string \<times> rat list) list \<Rightarrow> string \<times> string list \<Rightarrow>
     (string \<times> rat list) list" where
  "assign adata use_raw frame np =
     AList.update (fst np) (the (column_of adata use_raw (snd np))) frame"

text \<open>
  The mean, over the peaks \<open>ps\<close>, of the values that observation \<open>i\<close> has in the columns
  of these peaks; \<open>vs\<close> is the feature axis of the matrix \<open>m\<close>.
\<close>

definition mean_of_peaks :: "string list \<Rightarrow> (nat \<Rightarrow> nat \<Rightarrow> rat) \<Rightarrow> string list \<Rightarrow> nat \<Rightarrow> rat" where
  "mean_of_peaks vs m ps i = (\<Sum>p\<leftarrow>ps. m i (the (var_index vs p))) / of_nat (length ps)"

text \<open>
  A key that raises no lookup failure: a direct key, or a label of the peak annotation.
\<close>

definition known_key :: "anndata \<Rightarrow> string \<Rightarrow> bool" where
  "known_key adata key =
     (is_direct adata key \<or>
      (case uns_atac adata of
         Some (Some annotation) \<Rightarrow> key \<in> gene ` set annotation
       | _ \<Rightarrow> False))"

text \<open>
  When \<open>use_raw\<close> is true, the object has a raw matrix with every feature of the processed
  one (the usual case: \<^verbatim>\<open>adata.raw\<close> is set before features are filtered).
\<close>

definition raw_ready :: "anndata \<Rightarrow> bool option \<Rightarrow> bool" where
  "raw_ready adata use_raw =
     (use_raw = Some True \<longrightarrow>
        (case raw adata of
           Some r \<Rightarrow> set (var_names adata) \<subseteq> set (raw_var_names r)
         | None \<Rightarrow> False))"

text \<open>
  For the mode \<^verbatim>\<open>'peak_type'\<close>: the column name of line 56, the peak types of a key's
  matched rows in the order of their first occurrence, and the matched peaks of one type.
\<close>

definition type_name :: "string \<Rightarrow> string \<Rightarrow> string" where
  "type_name key t = key @ '' ('' @ t @ '' peaks)''"

definition peak_types :: "anndata \<Rightarrow> string \<Rightarrow> string list" where
  "peak_types adata key = first_seen (map peak_type (matched_rows adata key))"

definition typed_peaks :: "anndata \<Rightarrow> string \<Rightarrow> string \<Rightarrow> string list" where
  "typed_peaks adata key t = map peak (filter (\<lambda>r. peak_type r = t) (matched_rows adata key))"

subsection \<open>An example object\<close>

text \<open>
  Two cells and two peaks. Gene \<open>G1\<close> is linked to both peaks, one a promoter and one
  distal; the peak of gene \<open>G2\<close> is not on the feature axis. The peak
  \<^verbatim>\<open>chr1:1-100\<close> has the values 2 and 4 in the two cells, \<^verbatim>\<open>chr1:200-300\<close> has
  6 and 8.
\<close>

definition example_annotation :: "peak_row list" where
  "example_annotation =
     [\<lparr>gene = ''G1'', peak = ''chr1:1-100'', peak_type = ''promoter''\<rparr>,
      \<lparr>gene = ''G1'', peak = ''chr1:200-300'', peak_type = ''distal''\<rparr>,
      \<lparr>gene = ''G2'', peak = ''chr9:1-50'', peak_type = ''promoter''\<rparr>]"

definition example_adata :: anndata where
  "example_adata =
     \<lparr>obs_names = [''c1'', ''c2''],
      obs_columns = [''batch''],
      var_names = [''chr1:1-100'', ''chr1:200-300''],
      X = (\<lambda>i j. [[2, 6], [4, 8]] ! i ! j),
      raw = None,
      uns_atac = Some (Some example_annotation)\<rparr>"

text \<open>The same object with a raw matrix that has ten times the values.\<close>

definition example_raw :: raw_data where
  "example_raw =
     \<lparr>raw_var_names = [''chr1:1-100'', ''chr1:200-300'', ''chr9:1-50''],
      raw_X = (\<lambda>i j. [[20, 60, 0], [40, 80, 0]] ! i ! j)\<rparr>"

text \<open>
  An annotation for the examples in which two genes give the same column name in the mode
  \<^verbatim>\<open>'peak_type'\<close>: gene \<^verbatim>\<open>A\<close> with the peak type \<^verbatim>\<open>x (y\<close>, and gene \<^verbatim>\<open>A (x\<close> with the peak
  type \<^verbatim>\<open>y\<close>, both name the column \<^verbatim>\<open>A (x (y peaks)\<close>.
\<close>

definition colliding_annotation :: "peak_row list" where
  "colliding_annotation =
     [\<lparr>gene = ''A'', peak = ''chr1:1-100'', peak_type = ''x (y''\<rparr>,
      \<lparr>gene = ''A (x'', peak = ''chr1:200-300'', peak_type = ''y''\<rparr>]"

section \<open>Auxiliary facts\<close>

lemma var_index_None: "var_index vs p = None \<longleftrightarrow> p \<notin> set vs"
  by (induction vs) auto

lemma var_index_Some: "var_index vs p = Some j \<Longrightarrow> j < length vs \<and> vs ! j = p"
  by (induction vs arbitrary: j) (auto split: if_splits)

lemma var_indices_Inr:
  "set ps \<subseteq> set vs \<Longrightarrow> var_indices vs ps = Inr (map (\<lambda>p. the (var_index vs p)) ps)"
proof (induction ps)
  case Nil
  then show ?case by simp
next
  case (Cons p ps)
  then obtain j where "var_index vs p = Some j"
    using var_index_None [of vs p] by (cases "var_index vs p") auto
  with Cons show ?case by simp
qed

lemma var_indices_Inr_D:
  "var_indices vs ps = Inr js \<Longrightarrow> set ps \<subseteq> set vs \<and> js = map (\<lambda>p. the (var_index vs p)) ps"
proof (induction ps arbitrary: js)
  case Nil
  then show ?case by simp
next
  case (Cons p ps)
  then obtain j js' where j: "var_index vs p = Some j" and js': "var_indices vs ps = Inr js'"
    and js: "js = j # js'"
    by (auto split: option.splits sum.splits)
  from j have "p \<in> set vs"
    using var_index_None [of vs p] by auto
  with Cons.IH [OF js'] j js show ?case by simp
qed

lemma var_indices_Inl_D:
  "var_indices vs ps = Inl e \<Longrightarrow> \<exists>p \<in> set ps. p \<notin> set vs \<and> e = VarKeyError p"
  by (induction ps) (auto split: option.splits sum.splits simp: var_index_None)

lemma length_mean_axis1: "length (mean_axis1 n m js) = n"
  by (simp add: mean_axis1_def)

lemma peaks_mean_length:
  "peaks_mean adata use_raw ps = Inr col \<Longrightarrow> length col = length (obs_names adata)"
  by (auto simp: peaks_mean_def length_mean_axis1 split: if_splits option.splits sum.splits)

lemma peaks_mean_processed:
  "use_raw \<noteq> Some True \<Longrightarrow> set ps \<subseteq> set (var_names adata) \<Longrightarrow>
   peaks_mean adata use_raw ps =
     Inr (mean_axis1 (length (obs_names adata)) (X adata) (map (\<lambda>p. the (var_index (var_names adata) p)) ps))"
  by (simp add: peaks_mean_def var_indices_Inr)

lemma peaks_mean_raw:
  "raw adata = Some r \<Longrightarrow> set ps \<subseteq> set (raw_var_names r) \<Longrightarrow>
   peaks_mean adata (Some True) ps =
     Inr (mean_axis1 (length (obs_names adata)) (raw_X r) (map (\<lambda>p. the (var_index (raw_var_names r) p)) ps))"
  by (simp add: peaks_mean_def var_indices_Inr)

lemma matched_peaks_subset: "set (matched_peaks adata key) \<subseteq> set (var_names adata)"
  by (auto simp: matched_peaks_def matched_rows_def split: option.splits)

lemma process_key_direct:
  "is_direct adata key \<Longrightarrow> \<not> attr_ndarray s \<Longrightarrow>
   process_key adata average use_raw s key = Inr (s\<lparr>attr_names := attr_names s @ [key]\<rparr>)"
  by (auto simp: process_key_def is_direct_def)

lemma process_key_direct_array:
  "is_direct adata key \<Longrightarrow> attr_ndarray s \<Longrightarrow>
   process_key adata average use_raw s key = Inl (AttributeError, s)"
  by (auto simp: process_key_def is_direct_def)

lemma process_key_no_annotation:
  "\<not> is_direct adata key \<Longrightarrow> uns_atac adata = None \<or> uns_atac adata = Some None \<Longrightarrow>
   process_key adata average use_raw s key = Inl (KeyError (no_annotation_message key), s)"
  by (auto simp: process_key_def is_direct_def)

lemma process_key_no_rows:
  "\<not> is_direct adata key \<Longrightarrow> uns_atac adata = Some (Some annotation) \<Longrightarrow>
   key \<notin> gene ` set annotation \<Longrightarrow>
   process_key adata average use_raw s key = Inl (LocKeyError key, s)"
  by (auto simp: process_key_def is_direct_def loc_def filter_empty_conv)

lemma process_key_no_peaks:
  "\<not> is_direct adata key \<Longrightarrow> uns_atac adata = Some (Some annotation) \<Longrightarrow>
   key \<in> gene ` set annotation \<Longrightarrow> matched_rows adata key = [] \<Longrightarrow>
   process_key adata average use_raw s key = Inr (s\<lparr>warnings := warnings s @ [PeaksNotFound key]\<rparr>)"
  by (auto simp: process_key_def is_direct_def loc_def filter_empty_conv matched_rows_def Let_def)

lemma process_key_gene:
  assumes "\<not> is_direct adata key" "matched_rows adata key \<noteq> []"
  shows "process_key adata average use_raw s key =
     (if average = AvgStr ''total'' \<or> average = AvgStr ''all'' then
        store_mean adata use_raw s (key @ '' (all peaks)'') (matched_peaks adata key)
      else if average = AvgStr ''peak_type'' then
        type_loop adata use_raw key
          (peak_dict (zip (map peak_type (matched_rows adata key)) (matched_peaks adata key))) s
      else
        add_peaks
          (s\<lparr>warnings := warnings s @
               (if average \<noteq> AvgNone \<and> average \<noteq> AvgBool False \<and> average \<noteq> AvgInt (- 1)
                then [NotRecognised average] else [])\<rparr>)
          (matched_peaks adata key))"
proof -
  from assms(2) obtain annotation where ann: "uns_atac adata = Some (Some annotation)"
    by (auto simp: matched_rows_def split: option.splits)
  have rows: "matched_rows adata key =
      filter (\<lambda>r. peak r \<in> set (var_names adata)) (filter (\<lambda>r. gene r = key) annotation)"
    by (simp add: matched_rows_def ann)
  with assms(2) have sel: "filter (\<lambda>r. gene r = key) annotation \<noteq> []"
    by (auto simp: filter_empty_conv)
  show ?thesis
    using assms sel unfolding process_key_def is_direct_def matched_peaks_def rows
    by (simp add: ann loc_def Let_def)
qed

lemma store_mean_array:
  "attr_ndarray s \<Longrightarrow> store_mean adata use_raw s n ps = Inl (AttributeError, s)"
  by (simp add: store_mean_def)

lemma store_mean_skip:
  "\<not> attr_ndarray s \<Longrightarrow> n \<in> set (obs_columns adata) \<Longrightarrow>
   store_mean adata use_raw s n ps =
     Inr (s\<lparr>attr_names := attr_names s @ [n], tmp_names := tmp_names s @ [n]\<rparr>)"
  by (simp add: store_mean_def)

lemma store_mean_store:
  "\<not> attr_ndarray s \<Longrightarrow> n \<notin> set (obs_columns adata) \<Longrightarrow> peaks_mean adata use_raw ps = Inr col \<Longrightarrow>
   store_mean adata use_raw s n ps =
     Inr (s\<lparr>attr_names := attr_names s @ [n], tmp_names := tmp_names s @ [n],
            x := AList.update n col (x s), computed := computed s @ [(n, ps)]\<rparr>)"
  by (simp add: store_mean_def)

lemma store_mean_raise:
  "\<not> attr_ndarray s \<Longrightarrow> n \<notin> set (obs_columns adata) \<Longrightarrow> peaks_mean adata use_raw ps = Inl e \<Longrightarrow>
   store_mean adata use_raw s n ps =
     Inl (e, s\<lparr>attr_names := attr_names s @ [n], tmp_names := tmp_names s @ [n]\<rparr>)"
  by (simp add: store_mean_def)

lemma store_mean_Inr_E:
  assumes "store_mean adata use_raw s n ps = Inr s'"
  obtains
    (skip) "n \<in> set (obs_columns adata)"
      "s' = s\<lparr>attr_names := attr_names s @ [n], tmp_names := tmp_names s @ [n]\<rparr>"
      "\<not> attr_ndarray s"
  | (store) col where "n \<notin> set (obs_columns adata)" "peaks_mean adata use_raw ps = Inr col"
      "s' = s\<lparr>attr_names := attr_names s @ [n], tmp_names := tmp_names s @ [n],
              x := AList.update n col (x s), computed := computed s @ [(n, ps)]\<rparr>"
      "\<not> attr_ndarray s"
  using assms by (auto simp: store_mean_def Let_def split: if_splits sum.splits)

lemma store_mean_Inl_E:
  assumes "store_mean adata use_raw s n ps = Inl (e, s')"
  shows "attr_ndarray s \<and> e = AttributeError \<and> s' = s \<or>
     \<not> attr_ndarray s \<and> n \<notin> set (obs_columns adata) \<and> peaks_mean adata use_raw ps = Inl e \<and>
       s' = s\<lparr>attr_names := attr_names s @ [n], tmp_names := tmp_names s @ [n]\<rparr>"
  using assms by (auto simp: store_mean_def Let_def split: if_splits sum.splits)

lemma store_mean_keeps_list:
  "store_mean adata use_raw s n ps = Inr s' \<Longrightarrow> \<not> attr_ndarray s \<and> \<not> attr_ndarray s'"
  by (erule store_mean_Inr_E) simp_all

lemma type_loop_keeps_list:
  "\<not> attr_ndarray s \<Longrightarrow> type_loop adata use_raw key items s = Inr s' \<Longrightarrow> \<not> attr_ndarray s'"
proof (induction items arbitrary: s)
  case Nil
  then show ?case by simp
next
  case (Cons tp items)
  obtain t p where tp: "tp = (t, p)" by (cases tp)
  from Cons.prems tp obtain s1 where
    s1: "store_mean adata use_raw s (key @ '' ('' @ t @ '' peaks)'') p = Inr s1"
    and rest: "type_loop adata use_raw key items s1 = Inr s'"
    by (auto split: sum.splits)
  from store_mean_keeps_list [OF s1] have "\<not> attr_ndarray s1" ..
  then show ?case
    using rest by (rule Cons.IH)
qed

lemma add_peaks_Inr_E:
  assumes "add_peaks s ps = Inr s'"
  obtains ns where "s' = s\<lparr>attr_names := ns, attr_ndarray := True\<rparr>"
  using assms by (auto simp: add_peaks_def split: option.splits)

lemma add_peaks_Inl_E:
  assumes "add_peaks s ps = Inl (e, s')"
  shows "e = ValueError \<and> s' = s"
  using assms by (auto simp: add_peaks_def split: option.splits)

lemma first_seen_snoc:
  "first_seen (ts @ [t]) = (if t \<in> set ts then first_seen ts else first_seen ts @ [t])"
  by (simp add: first_seen_def)

lemma set_first_seen [simp]: "set (first_seen ts) = set ts"
  by (simp add: first_seen_def)

lemma distinct_first_seen [simp]: "distinct (first_seen ts)"
  by (simp add: first_seen_def)

lemma dict_append_map:
  "distinct ts \<Longrightarrow>
   dict_append k v (map (\<lambda>t. (t, f t)) ts) =
     (if k \<in> set ts then map (\<lambda>t. (t, if t = k then f t @ [v] else f t)) ts
      else map (\<lambda>t. (t, f t)) ts @ [(k, [v])])"
  by (induction ts) auto

lemma peak_dict_snoc: "peak_dict (kvs @ [(k, v)]) = dict_append k v (peak_dict kvs)"
  by (simp add: peak_dict_def)

lemma peak_dict_eq:
  "peak_dict kvs = map (\<lambda>t. (t, peaks_of_type kvs t)) (first_seen (map fst kvs))"
proof (induction kvs rule: rev_induct)
  case Nil
  then show ?case by (simp add: peak_dict_def first_seen_def)
next
  case (snoc kv kvs)
  obtain k v where kv: "kv = (k, v)" by (cases kv)
  have none: "k \<notin> fst ` set kvs \<Longrightarrow> peaks_of_type kvs k = []"
    by (auto simp: peaks_of_type_def filter_empty_conv)
  show ?case
    unfolding kv peak_dict_snoc snoc.IH
    by (auto simp: dict_append_map first_seen_snoc peaks_of_type_def none [unfolded peaks_of_type_def])
qed

lemma peak_dict_nonempty: "(t, p) \<in> set (peak_dict kvs) \<Longrightarrow> p \<noteq> []"
  by (force simp: peak_dict_eq peaks_of_type_def filter_empty_conv)

lemma peak_dict_subset: "(t, p) \<in> set (peak_dict kvs) \<Longrightarrow> set p \<subseteq> snd ` set kvs"
  by (auto simp: peak_dict_eq peaks_of_type_def)

lemma resolve_keys_step:
  "process_key adata average use_raw s key = Inr s' \<Longrightarrow>
   resolve_keys adata average use_raw (key # keys) s = resolve_keys adata average use_raw keys s'"
  by simp

lemma resolve_keys_raise:
  "process_key adata average use_raw s key = Inl e \<Longrightarrow>
   resolve_keys adata average use_raw (key # keys) s = Inl e"
  by simp

lemma peaks_mean_not_raw:
  "use_raw \<noteq> Some True \<Longrightarrow> peaks_mean (adata\<lparr>raw := r\<rparr>) use_raw ps = peaks_mean adata None ps"
  by (simp add: peaks_mean_def split: sum.splits)

lemma store_mean_not_raw:
  "use_raw \<noteq> Some True \<Longrightarrow>
   store_mean (adata\<lparr>raw := r\<rparr>) use_raw s n ps = store_mean adata None s n ps"
  by (simp add: store_mean_def peaks_mean_not_raw Let_def split: sum.splits)

lemma type_loop_not_raw:
  "use_raw \<noteq> Some True \<Longrightarrow>
   type_loop (adata\<lparr>raw := r\<rparr>) use_raw key items s = type_loop adata None key items s"
  by (induction items arbitrary: s) (auto simp: store_mean_not_raw split: sum.splits)

lemma process_key_not_raw:
  "use_raw \<noteq> Some True \<Longrightarrow>
   process_key (adata\<lparr>raw := r\<rparr>) average use_raw s key = process_key adata average None s key"
  by (auto simp: process_key_def store_mean_not_raw type_loop_not_raw Let_def
      split: option.splits sum.splits)

lemma resolve_keys_not_raw:
  "use_raw \<noteq> Some True \<Longrightarrow>
   resolve_keys (adata\<lparr>raw := r\<rparr>) average use_raw keys s = resolve_keys adata average None keys s"
  by (induction keys arbitrary: s) (simp_all add: process_key_not_raw cong: sum.case_cong)

lemma key_cases:
  obtains
    (direct) "is_direct adata key"
  | (no_annotation) "\<not> is_direct adata key" "uns_atac adata = None \<or> uns_atac adata = Some None"
  | (no_rows) annotation where "\<not> is_direct adata key" "uns_atac adata = Some (Some annotation)"
      "key \<notin> gene ` set annotation"
  | (no_peaks) annotation where "\<not> is_direct adata key" "uns_atac adata = Some (Some annotation)"
      "key \<in> gene ` set annotation" "matched_rows adata key = []"
  | (gene_key) "\<not> is_direct adata key" "matched_rows adata key \<noteq> []"
proof (cases "is_direct adata key")
  case True
  then show ?thesis by (rule direct)
next
  case nd: False
  show ?thesis
  proof (cases "uns_atac adata")
    case None
    with nd show ?thesis by (auto intro: no_annotation)
  next
    case (Some u)
    show ?thesis
    proof (cases u)
      case None
      with nd Some show ?thesis by (auto intro: no_annotation)
    next
      case (Some annotation)
      with \<open>uns_atac adata = Some u\<close> have ann: "uns_atac adata = Some (Some annotation)"
        by simp
      show ?thesis
      proof (cases "key \<in> gene ` set annotation")
        case False
        with nd ann show ?thesis by (rule no_rows)
      next
        case True
        show ?thesis
        proof (cases "matched_rows adata key = []")
          case True
          with nd ann \<open>key \<in> gene ` set annotation\<close> show ?thesis by (rule no_peaks)
        next
          case False
          with nd show ?thesis by (rule gene_key)
        qed
      qed
    qed
  qed
qed

lemma peaks_mean_Inl_D:
  assumes "peaks_mean adata use_raw ps = Inl e" and "set ps \<subseteq> set (var_names adata)"
  shows "use_raw = Some True \<and>
    (raw adata = None \<and> e = RawNoneTypeError \<or>
     (\<exists>r p. raw adata = Some r \<and> p \<in> set (var_names adata) \<and> p \<notin> set (raw_var_names r) \<and>
        e = VarKeyError p))"
proof (cases "use_raw = Some True")
  case False
  with assms show ?thesis
    by (simp add: peaks_mean_def var_indices_Inr)
next
  case True
  show ?thesis
  proof (cases "raw adata")
    case None
    with True assms show ?thesis by (simp add: peaks_mean_def)
  next
    case (Some r)
    with True assms(1) have "var_indices (raw_var_names r) ps = Inl e"
      by (simp add: peaks_mean_def split: sum.splits)
    then obtain p where "p \<in> set ps" "p \<notin> set (raw_var_names r)" "e = VarKeyError p"
      by (auto dest: var_indices_Inl_D)
    with True Some assms(2) show ?thesis by auto
  qed
qed

lemma type_loop_Inl_D:
  "type_loop adata use_raw key items s = Inl (e, s') \<Longrightarrow>
   attr_ndarray s \<and> e = AttributeError \<or>
   (\<exists>tp \<in> set items. peaks_mean adata use_raw (snd tp) = Inl e)"
proof (induction items arbitrary: s)
  case Nil
  then show ?case by simp
next
  case (Cons tp items)
  obtain t p where tp: "tp = (t, p)" by (cases tp)
  show ?case
  proof (cases "store_mean adata use_raw s (key @ '' ('' @ t @ '' peaks)'') p")
    case (Inl es)
    with Cons.prems tp have "store_mean adata use_raw s (key @ '' ('' @ t @ '' peaks)'') p = Inl (e, s')"
      by simp
    from store_mean_Inl_E [OF this] tp show ?thesis
      by auto
  next
    case (Inr s1)
    with Cons.prems tp have rest: "type_loop adata use_raw key items s1 = Inl (e, s')"
      by simp
    from store_mean_keeps_list [OF Inr] have "\<not> attr_ndarray s1" ..
    with Cons.IH [OF rest] show ?thesis by simp
  qed
qed

lemma matched_rows_peaks_zip:
  "snd ` set (zip (map peak_type (matched_rows adata key)) (matched_peaks adata key))
     \<subseteq> set (var_names adata)"
  using matched_peaks_subset [of adata key] by (auto dest: set_zip_rightD)

lemma process_key_keeps_list:
  assumes "aggregating average" and "\<not> attr_ndarray s"
    and "process_key adata average use_raw s key = Inr s'"
  shows "\<not> attr_ndarray s'"
proof (cases adata key rule: key_cases)
  case direct
  with assms show ?thesis by (auto simp: process_key_direct)
next
  case no_annotation
  with assms show ?thesis by (simp add: process_key_no_annotation)
next
  case (no_rows annotation)
  with assms show ?thesis by (simp add: process_key_no_rows)
next
  case (no_peaks annotation)
  with assms show ?thesis by (auto simp: process_key_no_peaks)
next
  case gene_key
  show ?thesis
  proof (cases "average = AvgStr ''total'' \<or> average = AvgStr ''all''")
    case True
    with assms(3) gene_key
    have "store_mean adata use_raw s (key @ '' (all peaks)'') (matched_peaks adata key) = Inr s'"
      by (simp add: process_key_gene)
    from store_mean_keeps_list [OF this] show ?thesis ..
  next
    case False
    with assms(1) have pt: "average = AvgStr ''peak_type''"
      by (simp add: aggregating_def)
    with assms(3) gene_key
    have "type_loop adata use_raw key
        (peak_dict (zip (map peak_type (matched_rows adata key)) (matched_peaks adata key))) s =
        Inr s'"
      by (simp add: process_key_gene)
    with assms(2) show ?thesis
      by (rule type_loop_keeps_list)
  qed
qed

lemma process_key_Inl_D:
  assumes "process_key adata average use_raw s key = Inl (e, s')"
    and "aggregating average" and "\<not> attr_ndarray s"
  shows "\<not> is_direct adata key \<and>
    ((uns_atac adata = None \<or> uns_atac adata = Some None) \<and> e = KeyError (no_annotation_message key) \<or>
     (\<exists>annotation. uns_atac adata = Some (Some annotation) \<and> key \<notin> gene ` set annotation \<and>
        e = LocKeyError key) \<or>
     use_raw = Some True \<and> raw adata = None \<and> e = RawNoneTypeError \<or>
     use_raw = Some True \<and>
       (\<exists>r p. raw adata = Some r \<and> p \<in> set (var_names adata) \<and> p \<notin> set (raw_var_names r) \<and>
          e = VarKeyError p))"
proof (cases adata key rule: key_cases)
  case direct
  with assms show ?thesis by (simp add: process_key_direct)
next
  case no_annotation
  with assms show ?thesis by (auto simp: process_key_no_annotation)
next
  case (no_rows annotation)
  with assms show ?thesis by (auto simp: process_key_no_rows)
next
  case (no_peaks annotation)
  with assms show ?thesis by (simp add: process_key_no_peaks)
next
  case gene_key
  have "\<exists>ps. set ps \<subseteq> set (var_names adata) \<and> peaks_mean adata use_raw ps = Inl e"
  proof (cases "average = AvgStr ''total'' \<or> average = AvgStr ''all''")
    case True
    with assms gene_key
    have "store_mean adata use_raw s (key @ '' (all peaks)'') (matched_peaks adata key) = Inl (e, s')"
      by (simp add: process_key_gene)
    from store_mean_Inl_E [OF this] assms(3)
    have "peaks_mean adata use_raw (matched_peaks adata key) = Inl e"
      by simp
    then show ?thesis
      using matched_peaks_subset by blast
  next
    case False
    with assms(2) have pt: "average = AvgStr ''peak_type''"
      by (simp add: aggregating_def)
    with assms(1) gene_key
    have "type_loop adata use_raw key
        (peak_dict (zip (map peak_type (matched_rows adata key)) (matched_peaks adata key))) s =
        Inl (e, s')"
      by (simp add: process_key_gene)
    from type_loop_Inl_D [OF this] assms(3) obtain t p where
      tp: "(t, p) \<in> set (peak_dict (zip (map peak_type (matched_rows adata key)) (matched_peaks adata key)))"
      and pm: "peaks_mean adata use_raw p = Inl e"
      by auto
    from tp have "set p \<subseteq> set (var_names adata)"
      using peak_dict_subset matched_rows_peaks_zip by blast
    with pm show ?thesis by blast
  qed
  then obtain ps where "set ps \<subseteq> set (var_names adata)" "peaks_mean adata use_raw ps = Inl e"
    by blast
  from peaks_mean_Inl_D [OF this(2,1)] gene_key show ?thesis
    by blast
qed

lemma resolve_keys_Inl_D:
  assumes "aggregating average"
  shows "\<not> attr_ndarray s \<Longrightarrow> resolve_keys adata average use_raw keys s = Inl (e, s') \<Longrightarrow>
   \<exists>key \<in> set keys. \<exists>s1. \<not> attr_ndarray s1 \<and> process_key adata average use_raw s1 key = Inl (e, s')"
proof (induction keys arbitrary: s)
  case Nil
  then show ?case by simp
next
  case (Cons key keys)
  show ?case
  proof (cases "process_key adata average use_raw s key")
    case (Inl es)
    with Cons.prems have "process_key adata average use_raw s key = Inl (e, s')"
      by simp
    with Cons.prems(1) show ?thesis by auto
  next
    case (Inr s1)
    with Cons.prems have rest: "resolve_keys adata average use_raw keys s1 = Inl (e, s')"
      by simp
    have "\<not> attr_ndarray s1"
      by (rule process_key_keeps_list [OF assms Cons.prems(1) Inr])
    from Cons.IH [OF this rest] show ?thesis by auto
  qed
qed

lemma store_mean_Inr_fields:
  assumes "store_mean adata use_raw s n ps = Inr s'"
  shows "tmp_names s' = tmp_names s @ [n] \<and> attr_names s' = attr_names s @ [n] \<and>
    warnings s' = warnings s \<and> computed s' = computed s @ not_in_obs adata [(n, ps)]"
  using assms by (cases rule: store_mean_Inr_E) (simp_all add: not_in_obs_def)

lemma type_loop_Inr_fields:
  "type_loop adata use_raw key items s = Inr s' \<Longrightarrow>
   tmp_names s' = tmp_names s @ map (\<lambda>(t, p). key @ '' ('' @ t @ '' peaks)'') items \<and>
   attr_names s' = attr_names s @ map (\<lambda>(t, p). key @ '' ('' @ t @ '' peaks)'') items \<and>
   warnings s' = warnings s \<and>
   computed s' = computed s @
     not_in_obs adata (map (\<lambda>(t, p). (key @ '' ('' @ t @ '' peaks)'', p)) items)"
proof (induction items arbitrary: s)
  case Nil
  then show ?case by (simp add: not_in_obs_def)
next
  case (Cons tp items)
  obtain t p where tp: "tp = (t, p)" by (cases tp)
  from Cons.prems tp obtain s1 where
    s1: "store_mean adata use_raw s (key @ '' ('' @ t @ '' peaks)'') p = Inr s1"
    and rest: "type_loop adata use_raw key items s1 = Inr s'"
    by (auto split: sum.splits)
  from store_mean_Inr_fields [OF s1] Cons.IH [OF rest] tp show ?case
    by (simp add: not_in_obs_def)
qed

lemma process_key_direct_Inr:
  assumes "is_direct adata key" and "process_key adata average use_raw s key = Inr s'"
  shows "\<not> attr_ndarray s \<and> s' = s\<lparr>attr_names := attr_names s @ [key]\<rparr>"
  using assms by (cases "attr_ndarray s") (simp_all add: process_key_direct process_key_direct_array)

lemma process_key_other_Inr:
  assumes "\<not> is_direct adata key" and "matched_rows adata key \<noteq> []"
    and "\<not> aggregating average"
    and "process_key adata average use_raw s key = Inr s'"
  obtains ns where "s' = s\<lparr>warnings := warnings s @
        (if average \<noteq> AvgNone \<and> average \<noteq> AvgBool False \<and> average \<noteq> AvgInt (- 1)
         then [NotRecognised average] else []),
      attr_names := ns, attr_ndarray := True\<rparr>"
proof -
  from assms have "add_peaks
      (s\<lparr>warnings := warnings s @
           (if average \<noteq> AvgNone \<and> average \<noteq> AvgBool False \<and> average \<noteq> AvgInt (- 1)
            then [NotRecognised average] else [])\<rparr>)
      (matched_peaks adata key) = Inr s'"
    by (simp add: process_key_gene aggregating_def)
  then show ?thesis
    by (rule add_peaks_Inr_E) (rule that, simp)
qed

lemma targets_other: "\<not> aggregating average \<Longrightarrow> targets adata average key = []"
  by (simp add: targets_def aggregating_def)

lemma process_key_Inr_fields:
  assumes "process_key adata average use_raw s key = Inr s'"
  shows "tmp_names s' = tmp_names s @ map fst (targets adata average key) \<and>
    (aggregating average \<longrightarrow> attr_names s' = attr_names s @ listed adata average key) \<and>
    computed s' = computed s @ not_in_obs adata (targets adata average key)"
proof (cases adata key rule: key_cases)
  case direct
  from process_key_direct_Inr [OF direct assms] direct show ?thesis
    by (auto simp: targets_def listed_def not_in_obs_def)
next
  case no_annotation
  with assms show ?thesis by (simp add: process_key_no_annotation)
next
  case (no_rows annotation)
  with assms show ?thesis by (simp add: process_key_no_rows)
next
  case (no_peaks annotation)
  with assms show ?thesis
    by (auto simp: process_key_no_peaks targets_def listed_def not_in_obs_def matched_peaks_def)
next
  case gene_key
  show ?thesis
  proof (cases "average = AvgStr ''total'' \<or> average = AvgStr ''all''")
    case True
    with assms gene_key
    have "store_mean adata use_raw s (key @ '' (all peaks)'') (matched_peaks adata key) = Inr s'"
      by (simp add: process_key_gene)
    from store_mean_Inr_fields [OF this] True gene_key show ?thesis
      by (auto simp: targets_def listed_def)
  next
    case False
    show ?thesis
    proof (cases "average = AvgStr ''peak_type''")
      case True
      with assms gene_key
      have "type_loop adata use_raw key
          (peak_dict (zip (map peak_type (matched_rows adata key)) (matched_peaks adata key))) s =
          Inr s'"
        by (simp add: process_key_gene)
      from type_loop_Inr_fields [OF this] True gene_key show ?thesis
        by (simp add: targets_def listed_def case_prod_unfold comp_def)
    next
      case no: False
      with False have other: "\<not> aggregating average"
        by (simp add: aggregating_def)
      from process_key_other_Inr [OF gene_key other assms] obtain ns where
        "s' = s\<lparr>warnings := warnings s @
          (if average \<noteq> AvgNone \<and> average \<noteq> AvgBool False \<and> average \<noteq> AvgInt (- 1)
           then [NotRecognised average] else []),
          attr_names := ns, attr_ndarray := True\<rparr>" .
      with other show ?thesis
        by (simp add: targets_other not_in_obs_def)
    qed
  qed
qed

lemma resolve_keys_Inr_fields:
  "resolve_keys adata average use_raw keys s = Inr s' \<Longrightarrow>
   tmp_names s' = tmp_names s @ concat (map (\<lambda>k. map fst (targets adata average k)) keys) \<and>
   (aggregating average \<longrightarrow>
      attr_names s' = attr_names s @ concat (map (listed adata average) keys)) \<and>
   computed s' = computed s @ concat (map (\<lambda>k. not_in_obs adata (targets adata average k)) keys)"
proof (induction keys arbitrary: s)
  case Nil
  then show ?case by simp
next
  case (Cons key keys)
  from Cons.prems obtain s1 where
    s1: "process_key adata average use_raw s key = Inr s1"
    and rest: "resolve_keys adata average use_raw keys s1 = Inr s'"
    by (auto split: sum.splits)
  from process_key_Inr_fields [OF s1] Cons.IH [OF rest] show ?case
    by simp
qed

lemma targets_subset:
  "(n, ps) \<in> set (targets adata average key) \<Longrightarrow> ps \<noteq> [] \<and> set ps \<subseteq> set (var_names adata)"
proof -
  assume a: "(n, ps) \<in> set (targets adata average key)"
  show ?thesis
  proof (cases "average = AvgStr ''total'' \<or> average = AvgStr ''all''")
    case True
    with a have "ps = matched_peaks adata key" and "matched_rows adata key \<noteq> []"
      by (auto simp: targets_def split: if_splits)
    then show ?thesis
      using matched_peaks_subset [of adata key] by (simp add: matched_peaks_def)
  next
    case False
    with a obtain t where
      "(t, ps) \<in> set (peak_dict (zip (map peak_type (matched_rows adata key)) (matched_peaks adata key)))"
      by (auto simp: targets_def split: if_splits)
    then show ?thesis
      using peak_dict_nonempty peak_dict_subset matched_rows_peaks_zip by blast
  qed
qed

lemma type_loop_outcome_invariant:
  assumes "P s"
    and "\<And>s t p. (t, p) \<in> set items \<Longrightarrow> P s \<Longrightarrow>
      P (outcome (store_mean adata use_raw s (key @ '' ('' @ t @ '' peaks)'') p))"
  shows "P (outcome (type_loop adata use_raw key items s))"
  using assms
proof (induction items arbitrary: s)
  case Nil
  then show ?case by (simp add: outcome_def)
next
  case (Cons tp items)
  obtain t p where tp: "tp = (t, p)" by (cases tp)
  have step: "P (outcome (store_mean adata use_raw s (key @ '' ('' @ t @ '' peaks)'') p))"
    using Cons.prems tp by simp
  show ?case
  proof (cases "store_mean adata use_raw s (key @ '' ('' @ t @ '' peaks)'') p")
    case (Inl es)
    with step tp show ?thesis by (simp add: outcome_def)
  next
    case (Inr s1)
    with step have "P s1" by (simp add: outcome_def)
    then have "P (outcome (type_loop adata use_raw key items s1))"
      using Cons.prems(2) by (intro Cons.IH) auto
    with Inr tp show ?thesis by simp
  qed
qed

lemma process_key_outcome_invariant:
  assumes "P s"
    and store: "\<And>s n ps. (n, ps) \<in> set (targets adata average key) \<Longrightarrow> P s \<Longrightarrow>
      P (outcome (store_mean adata use_raw s n ps))"
    and warn: "\<And>s w. P s \<Longrightarrow> P (s\<lparr>warnings := warnings s @ w\<rparr>)"
    and attr: "\<And>s ns b. P s \<Longrightarrow> P (s\<lparr>attr_names := ns, attr_ndarray := b\<rparr>)"
  shows "P (outcome (process_key adata average use_raw s key))"
proof (cases adata key rule: key_cases)
  case direct
  show ?thesis
  proof (cases "attr_ndarray s")
    case True
    with direct assms(1) show ?thesis
      by (simp add: process_key_direct_array outcome_def)
  next
    case False
    from attr [OF assms(1), where ns = "attr_names s @ [key]" and b = "attr_ndarray s"]
    have "P (s\<lparr>attr_names := attr_names s @ [key]\<rparr>)" by simp
    with direct False show ?thesis
      by (simp add: process_key_direct outcome_def)
  qed
next
  case no_annotation
  with assms(1) show ?thesis by (simp add: process_key_no_annotation outcome_def)
next
  case (no_rows annotation)
  with assms(1) show ?thesis by (simp add: process_key_no_rows outcome_def)
next
  case (no_peaks annotation)
  with assms(1) warn show ?thesis by (simp add: process_key_no_peaks outcome_def)
next
  case gene_key
  show ?thesis
  proof (cases "average = AvgStr ''total'' \<or> average = AvgStr ''all''")
    case True
    with gene_key have "(key @ '' (all peaks)'', matched_peaks adata key) \<in> set (targets adata average key)"
      by (simp add: targets_def)
    from store [OF this assms(1)] True gene_key show ?thesis
      by (simp add: process_key_gene)
  next
    case False
    show ?thesis
    proof (cases "average = AvgStr ''peak_type''")
      case True
      have "P (outcome (type_loop adata use_raw key
          (peak_dict (zip (map peak_type (matched_rows adata key)) (matched_peaks adata key))) s))"
      proof (rule type_loop_outcome_invariant [where P = P and s = s, OF assms(1)])
        fix s1 t p
        assume "(t, p) \<in> set (peak_dict (zip (map peak_type (matched_rows adata key)) (matched_peaks adata key)))"
          and "P s1"
        with True gene_key show "P (outcome (store_mean adata use_raw s1 (key @ '' ('' @ t @ '' peaks)'') p))"
          by (intro store) (auto simp: targets_def)
      qed
      with True gene_key show ?thesis
        by (simp add: process_key_gene)
    next
      case no: False
      define s1 where "s1 = s\<lparr>warnings := warnings s @
               (if average \<noteq> AvgNone \<and> average \<noteq> AvgBool False \<and> average \<noteq> AvgInt (- 1)
                then [NotRecognised average] else [])\<rparr>"
      have s1: "P s1"
        unfolding s1_def by (rule warn [OF assms(1)])
      have "P (outcome (add_peaks s1 (matched_peaks adata key)))"
      proof (cases "add_peaks s1 (matched_peaks adata key)")
        case (Inl es)
        obtain e s' where "es = (e, s')" by (cases es)
        with Inl have "add_peaks s1 (matched_peaks adata key) = Inl (e, s')" by simp
        then have "s' = s1" by (simp add: add_peaks_Inl_E)
        with Inl \<open>es = (e, s')\<close> s1 show ?thesis by (simp add: outcome_def)
      next
        case (Inr s')
        then obtain ns where "s' = s1\<lparr>attr_names := ns, attr_ndarray := True\<rparr>"
          by (rule add_peaks_Inr_E)
        with Inr attr [OF s1] show ?thesis by (simp add: outcome_def)
      qed
      with no False gene_key show ?thesis
        by (simp add: process_key_gene s1_def)
    qed
  qed
qed

lemma resolve_keys_outcome_invariant:
  assumes "P s"
    and "\<And>s k. k \<in> set keys \<Longrightarrow> P s \<Longrightarrow> P (outcome (process_key adata average use_raw s k))"
  shows "P (outcome (resolve_keys adata average use_raw keys s))"
  using assms
proof (induction keys arbitrary: s)
  case Nil
  then show ?case by (simp add: outcome_def)
next
  case (Cons key keys)
  have step: "P (outcome (process_key adata average use_raw s key))"
    using Cons.prems by simp
  show ?case
  proof (cases "process_key adata average use_raw s key")
    case (Inl es)
    with step show ?thesis by (simp add: outcome_def)
  next
    case (Inr s1)
    with step have "P s1" by (simp add: outcome_def)
    then have "P (outcome (resolve_keys adata average use_raw keys s1))"
      using Cons.prems(2) by (intro Cons.IH) auto
    with Inr show ?thesis by simp
  qed
qed

lemma set_update_subset: "set (AList.update k v al) \<subseteq> insert (k, v) (set al)"
  by (induction al) auto

lemma means_ok_store:
  assumes "means_ok adata s" and "ps \<noteq> []"
  shows "means_ok adata (outcome (store_mean adata use_raw s n ps))"
proof (cases "store_mean adata use_raw s n ps")
  case (Inl es)
  obtain e s' where "es = (e, s')" by (cases es)
  with Inl store_mean_Inl_E [of adata use_raw s n ps e s'] assms show ?thesis
    by (auto simp: outcome_def means_ok_def)
next
  case (Inr s')
  then show ?thesis
  proof (cases rule: store_mean_Inr_E)
    case skip
    with Inr assms show ?thesis by (simp add: outcome_def means_ok_def)
  next
    case (store col)
    from store(2) have "length col = length (obs_names adata)"
      by (rule peaks_mean_length)
    with store Inr assms set_update_subset [of n col "x s"] show ?thesis
      by (auto simp: outcome_def means_ok_def)
  qed
qed

lemma means_ok_resolve_keys:
  "means_ok adata s \<Longrightarrow> means_ok adata (outcome (resolve_keys adata average use_raw keys s))"
proof (rule resolve_keys_outcome_invariant [where P = "means_ok adata"])
  fix s1 k
  assume "means_ok adata s1"
  then show "means_ok adata (outcome (process_key adata average use_raw s1 k))"
  proof (rule process_key_outcome_invariant [where P = "means_ok adata"])
    fix s2 n ps
    assume "(n, ps) \<in> set (targets adata average k)" and "means_ok adata s2"
    then show "means_ok adata (outcome (store_mean adata use_raw s2 n ps))"
      using targets_subset means_ok_store by blast
  qed (simp_all add: means_ok_def)
qed

lemma not_in_obs_append [simp]:
  "not_in_obs adata (nps @ nps') = not_in_obs adata nps @ not_in_obs adata nps'"
  by (simp add: not_in_obs_def)

lemma not_in_obs_Nil [simp]: "not_in_obs adata [] = []"
  by (simp add: not_in_obs_def)

lemma store_mean_Inr_frame:
  assumes "store_mean adata use_raw s n ps = Inr s'"
  shows "x s' = foldl (assign adata use_raw) (x s) (not_in_obs adata [(n, ps)]) \<and>
    (\<forall>np \<in> set (not_in_obs adata [(n, ps)]). \<exists>col. peaks_mean adata use_raw (snd np) = Inr col)"
  using assms
  by (cases rule: store_mean_Inr_E) (simp_all add: not_in_obs_def assign_def column_of_def)

lemma type_loop_Inr_frame:
  "type_loop adata use_raw key items s = Inr s' \<Longrightarrow>
   x s' = foldl (assign adata use_raw) (x s)
     (not_in_obs adata (map (\<lambda>(t, p). (key @ '' ('' @ t @ '' peaks)'', p)) items)) \<and>
   (\<forall>np \<in> set (not_in_obs adata (map (\<lambda>(t, p). (key @ '' ('' @ t @ '' peaks)'', p)) items)).
      \<exists>col. peaks_mean adata use_raw (snd np) = Inr col)"
proof (induction items arbitrary: s)
  case Nil
  then show ?case by simp
next
  case (Cons tp items)
  obtain t p where tp: "tp = (t, p)" by (cases tp)
  from Cons.prems tp obtain s1 where
    s1: "store_mean adata use_raw s (key @ '' ('' @ t @ '' peaks)'') p = Inr s1"
    and rest: "type_loop adata use_raw key items s1 = Inr s'"
    by (auto split: sum.splits)
  have split: "not_in_obs adata (map (\<lambda>(t, p). (key @ '' ('' @ t @ '' peaks)'', p)) (tp # items)) =
      not_in_obs adata [(key @ '' ('' @ t @ '' peaks)'', p)] @
      not_in_obs adata (map (\<lambda>(t, p). (key @ '' ('' @ t @ '' peaks)'', p)) items)"
    using tp by (simp add: not_in_obs_def)
  from store_mean_Inr_frame [OF s1] Cons.IH [OF rest] show ?case
    unfolding split by auto
qed

lemma process_key_Inr_frame:
  assumes "process_key adata average use_raw s key = Inr s'"
  shows "x s' = foldl (assign adata use_raw) (x s) (not_in_obs adata (targets adata average key)) \<and>
    (\<forall>np \<in> set (not_in_obs adata (targets adata average key)).
       \<exists>col. peaks_mean adata use_raw (snd np) = Inr col)"
proof (cases adata key rule: key_cases)
  case direct
  from process_key_direct_Inr [OF direct assms] direct show ?thesis
    by (auto simp: targets_def)
next
  case no_annotation
  with assms show ?thesis by (simp add: process_key_no_annotation)
next
  case (no_rows annotation)
  with assms show ?thesis by (simp add: process_key_no_rows)
next
  case (no_peaks annotation)
  with assms show ?thesis
    by (auto simp: process_key_no_peaks targets_def)
next
  case gene_key
  show ?thesis
  proof (cases "average = AvgStr ''total'' \<or> average = AvgStr ''all''")
    case True
    with assms gene_key
    have "store_mean adata use_raw s (key @ '' (all peaks)'') (matched_peaks adata key) = Inr s'"
      by (simp add: process_key_gene)
    from store_mean_Inr_frame [OF this] True gene_key show ?thesis
      by (simp add: targets_def)
  next
    case False
    show ?thesis
    proof (cases "average = AvgStr ''peak_type''")
      case True
      with assms gene_key
      have "type_loop adata use_raw key
          (peak_dict (zip (map peak_type (matched_rows adata key)) (matched_peaks adata key))) s =
          Inr s'"
        by (simp add: process_key_gene)
      from type_loop_Inr_frame [OF this] True gene_key show ?thesis
        by (simp add: targets_def)
    next
      case no: False
      with False have other: "\<not> aggregating average"
        by (simp add: aggregating_def)
      from process_key_other_Inr [OF gene_key other assms] obtain ns where
        "s' = s\<lparr>warnings := warnings s @
          (if average \<noteq> AvgNone \<and> average \<noteq> AvgBool False \<and> average \<noteq> AvgInt (- 1)
           then [NotRecognised average] else []),
          attr_names := ns, attr_ndarray := True\<rparr>" .
      with other show ?thesis
        by (simp add: targets_other)
    qed
  qed
qed

lemma resolve_keys_Inr_frame:
  "resolve_keys adata average use_raw keys s = Inr s' \<Longrightarrow>
   x s' = foldl (assign adata use_raw) (x s)
     (concat (map (\<lambda>k. not_in_obs adata (targets adata average k)) keys)) \<and>
   (\<forall>np \<in> set (concat (map (\<lambda>k. not_in_obs adata (targets adata average k)) keys)).
      \<exists>col. peaks_mean adata use_raw (snd np) = Inr col)"
proof (induction keys arbitrary: s)
  case Nil
  then show ?case by simp
next
  case (Cons key keys)
  from Cons.prems obtain s1 where
    s1: "process_key adata average use_raw s key = Inr s1"
    and rest: "resolve_keys adata average use_raw keys s1 = Inr s'"
    by (auto split: sum.splits)
  from process_key_Inr_frame [OF s1] Cons.IH [OF rest] show ?case
    by auto
qed

lemma map_of_foldl_assign:
  "map_of (foldl (assign adata use_raw) frame nps) n =
     (case map_of (rev nps) n of
        None \<Rightarrow> map_of frame n
      | Some ps \<Rightarrow> Some (the (column_of adata use_raw ps)))"
proof (induction nps rule: rev_induct)
  case Nil
  then show ?case by simp
next
  case (snoc np nps)
  then show ?case
    by (cases np) (simp add: assign_def update_conv')
qed

lemma distinct_foldl_assign:
  "distinct (map fst frame) \<Longrightarrow> distinct (map fst (foldl (assign adata use_raw) frame nps))"
  by (induction nps rule: rev_induct) (simp_all add: assign_def distinct_update)

lemma names_foldl_assign:
  "fst ` set (foldl (assign adata use_raw) frame nps) = fst ` set frame \<union> fst ` set nps"
  by (induction nps rule: rev_induct) (auto simp: assign_def dom_update)

lemma update_fresh: "k \<notin> fst ` set al \<Longrightarrow> AList.update k v al = al @ [(k, v)]"
  by (induction al) auto

lemma foldl_assign_distinct:
  "distinct (map fst frame @ map fst nps) \<Longrightarrow>
   foldl (assign adata use_raw) frame nps =
     frame @ map (\<lambda>np. (fst np, the (column_of adata use_raw (snd np)))) nps"
proof (induction nps rule: rev_induct)
  case Nil
  then show ?case by simp
next
  case (snoc np nps)
  from snoc.prems have d: "distinct (map fst frame @ map fst nps)"
    and fresh: "fst np \<notin> fst ` set frame \<union> fst ` set nps"
    by auto
  from fresh have "fst np \<notin> fst ` set (frame @ map (\<lambda>np. (fst np, the (column_of adata use_raw (snd np)))) nps)"
    by (auto simp: image_iff)
  with snoc.IH [OF d] show ?case
    by (simp add: assign_def update_fresh)
qed

lemma nth_mean_axis1:
  "i < n \<Longrightarrow> mean_axis1 n m (map (\<lambda>p. the (var_index vs p)) ps) ! i = mean_of_peaks vs m ps i"
  by (simp add: mean_axis1_def row_mean_def mean_of_peaks_def comp_def)

lemma peaks_mean_Inr_D:
  assumes "peaks_mean adata use_raw ps = Inr col"
  shows "length col = length (obs_names adata) \<and>
    (use_raw \<noteq> Some True \<longrightarrow> set ps \<subseteq> set (var_names adata) \<and>
       (\<forall>i < length (obs_names adata). col ! i = mean_of_peaks (var_names adata) (X adata) ps i)) \<and>
    (use_raw = Some True \<longrightarrow>
       (\<exists>r. raw adata = Some r \<and> set ps \<subseteq> set (raw_var_names r) \<and>
          (\<forall>i < length (obs_names adata). col ! i = mean_of_peaks (raw_var_names r) (raw_X r) ps i)))"
proof (cases "use_raw = Some True")
  case False
  with assms obtain js where js: "var_indices (var_names adata) ps = Inr js"
    and col: "col = mean_axis1 (length (obs_names adata)) (X adata) js"
    by (auto simp: peaks_mean_def split: sum.splits)
  from var_indices_Inr_D [OF js] col False show ?thesis
    by (simp add: nth_mean_axis1 length_mean_axis1)
next
  case True
  with assms obtain r js where r: "raw adata = Some r"
    and js: "var_indices (raw_var_names r) ps = Inr js"
    and col: "col = mean_axis1 (length (obs_names adata)) (raw_X r) js"
    by (auto simp: peaks_mean_def split: option.splits sum.splits)
  from var_indices_Inr_D [OF js] col True r show ?thesis
    by (simp add: nth_mean_axis1 length_mean_axis1)
qed

lemma average_peaks_Inr_D:
  assumes "average_peaks adata keys average use_raw = Inr s"
  shows "tmp_names s = concat (map (\<lambda>k. map fst (targets adata average k)) keys)"
    and "aggregating average \<longrightarrow> attr_names s = concat (map (listed adata average) keys)"
    and "computed s = concat (map (\<lambda>k. not_in_obs adata (targets adata average k)) keys)"
    and "x s = foldl (assign adata use_raw) [] (computed s)"
    and "\<forall>np \<in> set (computed s). \<exists>col. peaks_mean adata use_raw (snd np) = Inr col"
proof -
  from assms have r: "resolve_keys adata average use_raw keys init_state = Inr s"
    by (simp add: average_peaks_def)
  from resolve_keys_Inr_fields [OF r]
  show "tmp_names s = concat (map (\<lambda>k. map fst (targets adata average k)) keys)"
    and "aggregating average \<longrightarrow> attr_names s = concat (map (listed adata average) keys)"
    and c: "computed s = concat (map (\<lambda>k. not_in_obs adata (targets adata average k)) keys)"
    by (simp_all add: init_state_def)
  from resolve_keys_Inr_frame [OF r] c
  show "x s = foldl (assign adata use_raw) [] (computed s)"
    and "\<forall>np \<in> set (computed s). \<exists>col. peaks_mean adata use_raw (snd np) = Inr col"
    by (simp_all add: init_state_def)
qed

lemma map_fst_not_in_obs:
  "map fst (not_in_obs adata nps) = filter (\<lambda>n. n \<notin> set (obs_columns adata)) (map fst nps)"
  by (simp add: not_in_obs_def filter_map comp_def)

lemma subseq_targets_listed: "subseq (map fst (targets adata average key)) (listed adata average key)"
  by (simp add: listed_def targets_def)

lemma subseq_concat_map:
  "(\<And>k. subseq (f k) (g k)) \<Longrightarrow> subseq (concat (map f ks)) (concat (map g ks))"
  by (induction ks) (simp_all add: list_emb_append_mono)

lemma names_computed:
  assumes "average_peaks adata keys average use_raw = Inr s"
  shows "map fst (computed s) = filter (\<lambda>n. n \<notin> set (obs_columns adata)) (tmp_names s)"
  unfolding average_peaks_Inr_D(1,3) [OF assms]
  by (simp add: map_concat filter_concat comp_def map_fst_not_in_obs)

lemma count_list_filter:
  "count_list (filter P ns) n = (if P n then count_list ns n else 0)"
  by (induction ns) auto

lemma subseq_count_list: "subseq ns ms \<Longrightarrow> count_list ns n \<le> count_list ms n"
  by (induction rule: list_emb.induct) auto

lemma count_list_concat_map:
  "count_list (concat (map f ks)) n = (\<Sum>k\<leftarrow>ks. count_list (f k) n)"
  by (induction ks) simp_all

lemma targets_total:
  "average = AvgStr ''total'' \<or> average = AvgStr ''all'' \<Longrightarrow>
   targets adata average k =
     (if is_direct adata k \<or> matched_rows adata k = [] then []
      else [(k @ '' (all peaks)'', matched_peaks adata k)])"
  by (auto simp: targets_def)

lemma count_total_names:
  assumes "average = AvgStr ''total'' \<or> average = AvgStr ''all''"
    and "\<not> is_direct adata key" and "matched_rows adata key \<noteq> []"
  shows "count_list (concat (map (\<lambda>k. map fst (targets adata average k)) keys))
      (key @ '' (all peaks)'') = count_list keys key"
  using assms by (induction keys) (auto simp: targets_total)

lemma average_peaks_returns:
  assumes "\<forall>k \<in> set keys. known_key adata k" and "raw_ready adata use_raw"
    and "aggregating average"
  shows "\<exists>s. average_peaks adata keys average use_raw = Inr s"
proof (cases "average_peaks adata keys average use_raw")
  case (Inr s)
  then show ?thesis by blast
next
  case (Inl es)
  obtain e s' where "es = (e, s')" by (cases es)
  with Inl have "resolve_keys adata average use_raw keys init_state = Inl (e, s')"
    by (simp add: average_peaks_def)
  from resolve_keys_Inl_D [OF assms(3) _ this] obtain k s1 where k: "k \<in> set keys"
    and "\<not> attr_ndarray s1"
    and "process_key adata average use_raw s1 k = Inl (e, s')"
    by (auto simp: init_state_def)
  from process_key_Inl_D [OF this(3) assms(3) this(2)] have nd: "\<not> is_direct adata k"
    and c: "(uns_atac adata = None \<or> uns_atac adata = Some None) \<or>
      (\<exists>annotation. uns_atac adata = Some (Some annotation) \<and> k \<notin> gene ` set annotation) \<or>
      use_raw = Some True \<and> raw adata = None \<or>
      use_raw = Some True \<and>
        (\<exists>r p. raw adata = Some r \<and> p \<in> set (var_names adata) \<and> p \<notin> set (raw_var_names r))"
    by blast+
  from assms(1) k have "known_key adata k"
    by blast
  with nd obtain annotation where
    "uns_atac adata = Some (Some annotation)" "k \<in> gene ` set annotation"
    by (auto simp: known_key_def split: option.splits)
  with c assms(2) have False
    by (auto simp: raw_ready_def split: option.splits)
  then show ?thesis ..
qed

lemma map_of_unique:
  assumes "(n, v) \<in> set al" and "\<And>v'. (n, v') \<in> set al \<Longrightarrow> v' = v"
  shows "map_of al n = Some v"
proof (cases "map_of al n")
  case None
  with assms(1) show ?thesis
    by (auto simp: map_of_eq_None_iff image_iff)
next
  case (Some v')
  then have "(n, v') \<in> set al" by (rule map_of_SomeD)
  with assms(2) Some show ?thesis by simp
qed

lemma count_list_distinct: "distinct ns \<Longrightarrow> n \<in> set ns \<Longrightarrow> count_list ns n = 1"
  by (induction ns) auto

lemma zip_types_peaks:
  "zip (map peak_type rows) (map peak rows) = map (\<lambda>r. (peak_type r, peak r)) rows"
  by (induction rows) simp_all

lemma peaks_of_type_rows:
  "peaks_of_type (map (\<lambda>r. (peak_type r, peak r)) rows) t =
     map peak (filter (\<lambda>r. peak_type r = t) rows)"
  by (induction rows) (simp_all add: peaks_of_type_def)

lemma targets_peak_type:
  assumes "\<not> is_direct adata key" and "matched_rows adata key \<noteq> []"
  shows "targets adata (AvgStr ''peak_type'') key =
     map (\<lambda>t. (type_name key t, typed_peaks adata key t)) (peak_types adata key)"
  using assms
  by (simp add: targets_def matched_peaks_def zip_types_peaks peak_dict_eq peaks_of_type_rows
      comp_def type_name_def typed_peaks_def peak_types_def)

lemma inj_type_name: "inj_on (type_name key) A"
  by (simp add: inj_on_def type_name_def)

lemma distinct_type_names: "distinct (map (type_name key) (peak_types adata key))"
  by (simp add: distinct_map inj_type_name peak_types_def)

lemma matched_rows_known:
  assumes "matched_rows adata key \<noteq> []"
  shows "known_key adata key"
proof -
  from assms obtain annotation where ann: "uns_atac adata = Some (Some annotation)"
    by (auto simp: matched_rows_def split: option.splits)
  with assms have "filter (\<lambda>r. gene r = key) annotation \<noteq> []"
    by (auto simp: matched_rows_def filter_empty_conv)
  then have "key \<in> gene ` set annotation"
    by (auto simp: filter_empty_conv)
  with ann show ?thesis
    by (auto simp: known_key_def)
qed

lemma first_seen_Nil [simp]: "first_seen [] = []"
  by (simp add: first_seen_def)

lemma first_seen_distinct: "distinct ts \<Longrightarrow> first_seen ts = ts"
  by (simp add: first_seen_def distinct_remdups_id)

lemma first_seen_append:
  "first_seen (ts @ us) = first_seen ts @ filter (\<lambda>u. u \<notin> set ts) (first_seen us)"
proof (induction us rule: rev_induct)
  case Nil
  then show ?case by simp
next
  case (snoc u us)
  have "first_seen (ts @ us @ [u]) =
      (if u \<in> set (ts @ us) then first_seen (ts @ us) else first_seen (ts @ us) @ [u])"
    using first_seen_snoc [of "ts @ us" u] by simp
  with snoc show ?case
    by (auto simp: first_seen_snoc)
qed

lemma filter_first_seen: "filter P (first_seen ts) = first_seen (filter P ts)"
  by (induction ts rule: rev_induct) (auto simp: first_seen_snoc)

lemma first_seen_repeats:
  assumes "distinct ns"
  shows "first_seen (concat (map (\<lambda>k. if k = key then ns else []) keys)) =
     (if key \<in> set keys then ns else [])"
proof (induction keys)
  case Nil
  then show ?case by simp
next
  case (Cons k keys)
  show ?case
  proof (cases "k = key")
    case True
    have "filter (\<lambda>u. u \<notin> set ns) (if key \<in> set keys then ns else []) = []"
      by simp
    with True Cons assms show ?thesis
      by (simp add: first_seen_append first_seen_distinct)
  next
    case False
    with Cons show ?thesis by auto
  qed
qed

lemma map_fst_foldl_assign:
  "map fst (foldl (assign adata use_raw) [] nps) = first_seen (map fst nps)"
proof (induction nps rule: rev_induct)
  case Nil
  then show ?case by simp
next
  case (snoc np nps)
  have "set (map fst (foldl (assign adata use_raw) [] nps)) = set (map fst nps)"
    unfolding snoc by simp
  with snoc show ?case
    by (simp add: assign_def update_keys first_seen_snoc)
qed

lemma foldl_assign_mem:
  "c \<in> set (foldl (assign adata use_raw) frame nps) \<Longrightarrow>
   c \<in> set frame \<or>
   (\<exists>ps. (fst c, ps) \<in> set nps \<and> snd c = the (column_of adata use_raw ps))"
proof (induction nps arbitrary: c rule: rev_induct)
  case Nil
  then show ?case by simp
next
  case (snoc np nps)
  have "foldl (assign adata use_raw) frame (nps @ [np]) =
      AList.update (fst np) (the (column_of adata use_raw (snd np)))
        (foldl (assign adata use_raw) frame nps)"
    by (simp add: assign_def)
  with snoc.prems
  have "c \<in> set (AList.update (fst np) (the (column_of adata use_raw (snd np)))
      (foldl (assign adata use_raw) frame nps))"
    by simp
  with set_update_subset [of "fst np" "the (column_of adata use_raw (snd np))"
        "foldl (assign adata use_raw) frame nps"]
  have "c \<in> insert (fst np, the (column_of adata use_raw (snd np)))
      (set (foldl (assign adata use_raw) frame nps))"
    by blast
  then show ?case
  proof
    assume "c = (fst np, the (column_of adata use_raw (snd np)))"
    then have "(fst c, snd np) \<in> set (nps @ [np]) \<and> snd c = the (column_of adata use_raw (snd np))"
      by simp
    then show ?thesis by blast
  next
    assume "c \<in> set (foldl (assign adata use_raw) frame nps)"
    from snoc.IH [OF this] show ?thesis by auto
  qed
qed

text \<open>
  The frame is the replay of the executed assignments, and each of them had a mean to
  assign; this holds of the local state however the call ends.
\<close>

lemma replay_store:
  assumes "x s = foldl (assign adata use_raw) [] (computed s) \<and>
      (\<forall>np \<in> set (computed s). \<exists>col. peaks_mean adata use_raw (snd np) = Inr col)"
  shows "x (outcome (store_mean adata use_raw s n ps)) =
      foldl (assign adata use_raw) [] (computed (outcome (store_mean adata use_raw s n ps))) \<and>
    (\<forall>np \<in> set (computed (outcome (store_mean adata use_raw s n ps))).
       \<exists>col. peaks_mean adata use_raw (snd np) = Inr col)"
proof (cases "store_mean adata use_raw s n ps")
  case (Inl es)
  obtain e s' where "es = (e, s')" by (cases es)
  with Inl store_mean_Inl_E [of adata use_raw s n ps e s'] assms show ?thesis
    by (auto simp: outcome_def)
next
  case (Inr s')
  then show ?thesis
  proof (cases rule: store_mean_Inr_E)
    case skip
    with Inr assms show ?thesis by (simp add: outcome_def)
  next
    case (store col)
    with Inr assms show ?thesis
      by (auto simp: outcome_def assign_def column_of_def)
  qed
qed

lemma replay_resolve_keys:
  assumes "x s = foldl (assign adata use_raw) [] (computed s) \<and>
      (\<forall>np \<in> set (computed s). \<exists>col. peaks_mean adata use_raw (snd np) = Inr col)"
  shows "x (outcome (resolve_keys adata average use_raw keys s)) =
      foldl (assign adata use_raw) []
        (computed (outcome (resolve_keys adata average use_raw keys s))) \<and>
    (\<forall>np \<in> set (computed (outcome (resolve_keys adata average use_raw keys s))).
       \<exists>col. peaks_mean adata use_raw (snd np) = Inr col)"
proof (rule resolve_keys_outcome_invariant
    [where P = "\<lambda>s::state. x s = foldl (assign adata use_raw) [] (computed s) \<and>
      (\<forall>np \<in> set (computed s). \<exists>col. peaks_mean adata use_raw (snd np) = Inr col)" and s = s,
     OF assms])
  fix s1 :: state and k
  assume "x s1 = foldl (assign adata use_raw) [] (computed s1) \<and>
      (\<forall>np \<in> set (computed s1). \<exists>col. peaks_mean adata use_raw (snd np) = Inr col)"
  then show "x (outcome (process_key adata average use_raw s1 k)) =
      foldl (assign adata use_raw) [] (computed (outcome (process_key adata average use_raw s1 k))) \<and>
    (\<forall>np \<in> set (computed (outcome (process_key adata average use_raw s1 k))).
       \<exists>col. peaks_mean adata use_raw (snd np) = Inr col)"
  proof (rule process_key_outcome_invariant
      [where P = "\<lambda>s::state. x s = foldl (assign adata use_raw) [] (computed s) \<and>
        (\<forall>np \<in> set (computed s). \<exists>col. peaks_mean adata use_raw (snd np) = Inr col)"])
    fix s2 :: state and n ps
    assume "x s2 = foldl (assign adata use_raw) [] (computed s2) \<and>
        (\<forall>np \<in> set (computed s2). \<exists>col. peaks_mean adata use_raw (snd np) = Inr col)"
    then show "x (outcome (store_mean adata use_raw s2 n ps)) =
        foldl (assign adata use_raw) [] (computed (outcome (store_mean adata use_raw s2 n ps))) \<and>
      (\<forall>np \<in> set (computed (outcome (store_mean adata use_raw s2 n ps))).
         \<exists>col. peaks_mean adata use_raw (snd np) = Inr col)"
      by (rule replay_store)
  qed simp_all
qed

text \<open>
  Every column of the frame is the mean over the peaks of an executed assignment of its
  name, observation by observation.
\<close>

lemma columns_are_means:
  assumes "x s = foldl (assign adata use_raw) [] (computed s)"
    and "\<forall>np \<in> set (computed s). \<exists>col. peaks_mean adata use_raw (snd np) = Inr col"
    and "c \<in> set (x s)"
  shows "\<exists>ps. (fst c, ps) \<in> set (computed s) \<and>
    (use_raw \<noteq> Some True \<longrightarrow>
       (\<forall>i < length (obs_names adata).
          snd c ! i = mean_of_peaks (var_names adata) (X adata) ps i)) \<and>
    (use_raw = Some True \<longrightarrow>
       (\<exists>r. raw adata = Some r \<and>
          (\<forall>i < length (obs_names adata).
             snd c ! i = mean_of_peaks (raw_var_names r) (raw_X r) ps i)))"
proof -
  from assms(1,3) foldl_assign_mem [of c adata use_raw "[]" "computed s"]
  obtain ps where mem: "(fst c, ps) \<in> set (computed s)"
    and c: "snd c = the (column_of adata use_raw ps)"
    by auto
  from assms(2) mem obtain col where col: "peaks_mean adata use_raw ps = Inr col"
    by force
  with c have "snd c = col"
    by (simp add: column_of_def)
  with mem peaks_mean_Inr_D [OF col] show ?thesis
    by blast
qed

section \<open>The claims\<close>

text \<open>
  Claim C8. A key that is an observation identifier or a column of \<open>obs\<close> is to be
  appended unchanged to \<open>attr_names\<close> (the display names), and nothing else is to change.
  Line 73 does so while \<open>attr_names\<close> is the list it started as (lemma
  \<open>process_key_direct\<close>). It does not once line 70 has run for a gene key in a mode other
  than \<^verbatim>\<open>'total'\<close>, \<^verbatim>\<open>'all'\<close> and \<^verbatim>\<open>'peak_type'\<close>, since \<open>attr_names\<close> is a numpy array
  from then on. On the example object with \<^verbatim>\<open>average=None\<close>: for the keys \<^verbatim>\<open>batch\<close>,
  \<^verbatim>\<open>G1\<close> the call returns, and the display names are \<^verbatim>\<open>batchchr1:1-100\<close> and
  \<^verbatim>\<open>batchchr1:200-300\<close>, the column \<^verbatim>\<open>batch\<close> added to each peak of \<^verbatim>\<open>G1\<close> and no
  longer listed itself; for the keys \<^verbatim>\<open>batch\<close>, \<^verbatim>\<open>G1\<close>, \<^verbatim>\<open>c2\<close> the observation
  \<^verbatim>\<open>c2\<close> raises \<^verbatim>\<open>AttributeError\<close> at line 73.
\<close>

theorem direct_key_after_fallback_gene:
  "''batch'' \<in> set (obs_columns example_adata) \<and> ''c2'' \<in> set (obs_names example_adata) \<and>
   average_peaks example_adata [''batch'', ''G1''] AvgNone None =
     Inr \<lparr>x = [], attr_names = [''batchchr1:1-100'', ''batchchr1:200-300''], tmp_names = [],
          warnings = [], computed = [], attr_ndarray = True\<rparr> \<and>
   average_peaks example_adata [''batch'', ''G1'', ''c2''] AvgNone None =
     Inl (AttributeError,
       \<lparr>x = [], attr_names = [''batchchr1:1-100'', ''batchchr1:200-300''], tmp_names = [],
        warnings = [], computed = [], attr_ndarray = True\<rparr>)"
  by (simp add: average_peaks_def process_key_def example_adata_def example_annotation_def loc_def
      add_peaks_def np_add_def init_state_def Let_def)

text \<open>
  Claim C4. A key that has rows in the peak annotation, none of them with a peak on the
  feature axis, emits the one warning \<open>PeaksNotFound key\<close>, adds no column and no
  name, raises nothing, and the loop goes on with the remaining keys.
\<close>

theorem no_matching_peaks_warns_and_skips:
  assumes "key \<notin> set (obs_names adata)" and "key \<notin> set (obs_columns adata)"
    and "uns_atac adata = Some (Some annotation)"
    and "key \<in> gene ` set annotation"
    and "\<forall>r \<in> set annotation. gene r = key \<longrightarrow> peak r \<notin> set (var_names adata)"
  shows "process_key adata average use_raw s key =
      Inr (s\<lparr>warnings := warnings s @ [PeaksNotFound key]\<rparr>) \<and>
    resolve_keys adata average use_raw (key # keys) s =
      resolve_keys adata average use_raw keys (s\<lparr>warnings := warnings s @ [PeaksNotFound key]\<rparr>)"
proof -
  have nd: "\<not> is_direct adata key"
    using assms(1,2) by (simp add: is_direct_def)
  have none: "matched_rows adata key = []"
    using assms(3,5) by (auto simp: matched_rows_def filter_empty_conv)
  have "process_key adata average use_raw s key =
      Inr (s\<lparr>warnings := warnings s @ [PeaksNotFound key]\<rparr>)"
    by (rule process_key_no_peaks [OF nd assms(3,4) none])
  then show ?thesis
    by (simp add: resolve_keys_step)
qed

theorem no_matching_peaks_warns_and_skips_witness:
  "''G2'' \<notin> set (obs_names example_adata) \<and> ''G2'' \<notin> set (obs_columns example_adata) \<and>
   uns_atac example_adata = Some (Some example_annotation) \<and>
   ''G2'' \<in> gene ` set example_annotation \<and>
   average_peaks example_adata [''G2'', ''batch''] (AvgStr ''total'') None =
     Inr \<lparr>x = [], attr_names = [''batch''], tmp_names = [],
          warnings = [PeaksNotFound ''G2''], computed = [],
          attr_ndarray = False\<rparr>"
proof -
  have h: "''G2'' \<notin> set (obs_names example_adata)" "''G2'' \<notin> set (obs_columns example_adata)"
    "uns_atac example_adata = Some (Some example_annotation)"
    "''G2'' \<in> gene ` set example_annotation"
    "\<forall>r \<in> set example_annotation. gene r = ''G2'' \<longrightarrow> peak r \<notin> set (var_names example_adata)"
    by (simp_all add: example_adata_def example_annotation_def)
  have "process_key example_adata (AvgStr ''total'') None
      (init_state\<lparr>warnings := warnings init_state @ [PeaksNotFound ''G2'']\<rparr>) ''batch'' =
      Inr \<lparr>x = [], attr_names = [''batch''], tmp_names = [],
          warnings = [PeaksNotFound ''G2''], computed = [],
          attr_ndarray = False\<rparr>"
    by (simp add: process_key_def example_adata_def init_state_def)
  with h no_matching_peaks_warns_and_skips [OF h, of "AvgStr ''total''" None init_state "[''batch'']"]
  show ?thesis
    by (simp add: average_peaks_def)
qed

text \<open>
  Claim C10. The call of \<^verbatim>\<open>dotplot\<close> passes \<^verbatim>\<open>use_raw=None\<close>. The resolver tests
  \<^verbatim>\<open>if use_raw:\<close>, so \<open>None\<close> and \<open>Some False\<close> give the same result: the same frame,
  the same \<open>attr_names\<close> and \<open>tmp_names\<close> (and the same warnings, or the same exception).
  With either value the result does not depend on the raw matrix: replacing it by any
  other, or by none, changes nothing.
\<close>

theorem use_raw_None_like_False:
  "average_peaks adata keys average None = average_peaks adata keys average (Some False) \<and>
   average_peaks (adata\<lparr>raw := r\<rparr>) keys average None = average_peaks adata keys average None \<and>
   average_peaks (adata\<lparr>raw := r\<rparr>) keys average (Some False) =
     average_peaks adata keys average (Some False)"
proof -
  have a: "resolve_keys adata average (Some False) keys init_state =
      resolve_keys adata average None keys init_state"
    using resolve_keys_not_raw [where use_raw = "Some False" and adata = adata and r = "raw adata"]
    by simp
  have b: "resolve_keys (adata\<lparr>raw := r\<rparr>) average None keys init_state =
      resolve_keys adata average None keys init_state"
    by (simp add: resolve_keys_not_raw)
  have c: "resolve_keys (adata\<lparr>raw := r\<rparr>) average (Some False) keys init_state =
      resolve_keys adata average None keys init_state"
    by (simp add: resolve_keys_not_raw)
  show ?thesis
    unfolding average_peaks_def using a b c by simp
qed

text \<open>
  Claim C3, as amended. When the loop reaches a key that is neither an observation
  identifier nor a column of \<open>obs\<close>: without a peak annotation it raises the
  \<^verbatim>\<open>KeyError\<close> of line 23, whose message names \<^verbatim>\<open>add_peak_annotation\<close>; with an
  annotation that has no row for the key it raises the \<^verbatim>\<open>KeyError\<close> of pandas, which
  is a different exception value. In the modes \<^verbatim>\<open>'total'\<close>, \<^verbatim>\<open>'all'\<close> and
  \<^verbatim>\<open>'peak_type'\<close> these two are the only exceptions of a call when \<open>use_raw\<close> is not
  true. When \<open>use_raw\<close> is true the aggregation can raise as well: a \<^verbatim>\<open>TypeError\<close>
  when the object has no raw matrix, a \<^verbatim>\<open>KeyError\<close> when the raw matrix lacks a
  matched peak.
\<close>

theorem raising_conditions:
  "(\<not> is_direct adata key \<and> (uns_atac adata = None \<or> uns_atac adata = Some None) \<longrightarrow>
      resolve_keys adata average use_raw (key # keys) s =
        Inl (KeyError (no_annotation_message key), s)) \<and>
   (\<not> is_direct adata key \<and> uns_atac adata = Some (Some annotation) \<and>
      key \<notin> gene ` set annotation \<longrightarrow>
      resolve_keys adata average use_raw (key # keys) s = Inl (LocKeyError key, s)) \<and>
   (aggregating average \<and> average_peaks adata keys average use_raw = Inl (e, s') \<longrightarrow>
      (\<exists>k \<in> set keys. \<not> is_direct adata k \<and>
         ((uns_atac adata = None \<or> uns_atac adata = Some None) \<and>
            e = KeyError (no_annotation_message k) \<or>
          (\<exists>rows. uns_atac adata = Some (Some rows) \<and> k \<notin> gene ` set rows \<and>
             e = LocKeyError k))) \<or>
      use_raw = Some True \<and> raw adata = None \<and> e = RawNoneTypeError \<or>
      use_raw = Some True \<and>
        (\<exists>r p. raw adata = Some r \<and> p \<in> set (var_names adata) \<and> p \<notin> set (raw_var_names r) \<and>
           e = VarKeyError p))"
proof (intro conjI impI)
  assume "\<not> is_direct adata key \<and> (uns_atac adata = None \<or> uns_atac adata = Some None)"
  then have "process_key adata average use_raw s key = Inl (KeyError (no_annotation_message key), s)"
    by (simp add: process_key_no_annotation)
  then show "resolve_keys adata average use_raw (key # keys) s =
      Inl (KeyError (no_annotation_message key), s)"
    by simp
next
  assume "\<not> is_direct adata key \<and> uns_atac adata = Some (Some annotation) \<and>
    key \<notin> gene ` set annotation"
  then have "process_key adata average use_raw s key = Inl (LocKeyError key, s)"
    by (simp add: process_key_no_rows)
  then show "resolve_keys adata average use_raw (key # keys) s = Inl (LocKeyError key, s)"
    by simp
next
  assume a: "aggregating average \<and> average_peaks adata keys average use_raw = Inl (e, s')"
  then have agg: "aggregating average"
    and run: "resolve_keys adata average use_raw keys init_state = Inl (e, s')"
    by (simp_all add: average_peaks_def)
  from resolve_keys_Inl_D [OF agg _ run] obtain k s1 where k: "k \<in> set keys"
    and "\<not> attr_ndarray s1"
    and "process_key adata average use_raw s1 k = Inl (e, s')"
    by (auto simp: init_state_def)
  from process_key_Inl_D [OF this(3) agg this(2)] k
  show "(\<exists>k \<in> set keys. \<not> is_direct adata k \<and>
         ((uns_atac adata = None \<or> uns_atac adata = Some None) \<and>
            e = KeyError (no_annotation_message k) \<or>
          (\<exists>rows. uns_atac adata = Some (Some rows) \<and> k \<notin> gene ` set rows \<and>
             e = LocKeyError k))) \<or>
      use_raw = Some True \<and> raw adata = None \<and> e = RawNoneTypeError \<or>
      use_raw = Some True \<and>
        (\<exists>r p. raw adata = Some r \<and> p \<in> set (var_names adata) \<and> p \<notin> set (raw_var_names r) \<and>
           e = VarKeyError p)"
    by blast
qed

text \<open>Both lookup failures on the example object, and the text of the first message.\<close>

theorem raising_conditions_witness:
  "average_peaks (example_adata\<lparr>uns_atac := None\<rparr>) [''G1'', ''batch''] (AvgStr ''total'') None =
     Inl (KeyError (no_annotation_message ''G1''), init_state) \<and>
   average_peaks example_adata [''G3''] (AvgStr ''total'') None =
     Inl (LocKeyError ''G3'', init_state) \<and>
   no_annotation_message ''G1'' =
     ''There is no feature or feature annotation G1. If it is a gene name, load peak annotation with muon.atac.pp.add_peak_annotation first.''"
proof -
  have 1: "\<not> is_direct (example_adata\<lparr>uns_atac := None\<rparr>) ''G1'' \<and>
      (uns_atac (example_adata\<lparr>uns_atac := None\<rparr>) = None \<or>
       uns_atac (example_adata\<lparr>uns_atac := None\<rparr>) = Some None)"
    by (simp add: is_direct_def example_adata_def)
  have 2: "\<not> is_direct example_adata ''G3'' \<and>
      uns_atac example_adata = Some (Some example_annotation) \<and>
      ''G3'' \<notin> gene ` set example_annotation"
    by (simp add: is_direct_def example_adata_def example_annotation_def)
  from 1 raising_conditions [of "example_adata\<lparr>uns_atac := None\<rparr>" "''G1''" "AvgStr ''total''" None
      "[''batch'']" init_state]
  have a: "average_peaks (example_adata\<lparr>uns_atac := None\<rparr>) [''G1'', ''batch''] (AvgStr ''total'') None =
     Inl (KeyError (no_annotation_message ''G1''), init_state)"
    unfolding average_peaks_def by blast
  from 2 raising_conditions [of example_adata "''G3''" "AvgStr ''total''" None "[]" init_state
      example_annotation]
  have b: "average_peaks example_adata [''G3''] (AvgStr ''total'') None =
     Inl (LocKeyError ''G3'', init_state)"
    unfolding average_peaks_def by blast
  from a b show ?thesis
    by (simp add: no_annotation_message_def)
qed

text \<open>
  Claim C3 as stated fails: the example object has no raw matrix, and with
  \<^verbatim>\<open>use_raw=True\<close> (the default of \<^verbatim>\<open>embedding\<close>) the gene \<open>G1\<close> raises a
  \<^verbatim>\<open>TypeError\<close> at line 42, which is no lookup failure.
\<close>

theorem raw_missing_counterexample:
  "average_peaks example_adata [''G1''] (AvgStr ''total'') (Some True) =
     Inl (RawNoneTypeError,
       \<lparr>x = [], attr_names = [''G1 (all peaks)''], tmp_names = [''G1 (all peaks)''],
        warnings = [], computed = [],
          attr_ndarray = False\<rparr>) \<and>
   \<not> is_KeyError RawNoneTypeError"
  by (simp add: average_peaks_def process_key_def example_adata_def example_annotation_def loc_def
      store_mean_def peaks_mean_def init_state_def Let_def)

text \<open>
  Claim C5. For a gene key with matched peaks and a mode other than \<^verbatim>\<open>'total'\<close>,
  \<^verbatim>\<open>'all'\<close> and \<^verbatim>\<open>'peak_type'\<close>, every matched peak is to be appended to \<open>attr_names\<close>;
  the comment of line 67 says so (\<^verbatim>\<open>No averaging, one plot per peak\<close>). Line 70 does
  something else: the right operand of \<^verbatim>\<open>attr_names += peak_sel.peak.values\<close> is a numpy
  array, so the statement is numpy's addition and not the extension of the list. On the
  example object the gene \<open>G1\<close> has two matched peaks; the list is empty, the shapes
  \<open>(0,)\<close> and \<open>(2,)\<close> do not broadcast, and the call raises \<^verbatim>\<open>ValueError\<close>: after the
  one warning in the mode \<^verbatim>\<open>'bogus'\<close>, with no warning in the mode \<^verbatim>\<open>None\<close>, and
  after a warning in the mode \<^verbatim>\<open>''\<close> as well, which the test of line 68 (not \<^verbatim>\<open>None\<close>,
  not \<^verbatim>\<open>False\<close>, not \<^verbatim>\<open>-1\<close>) lets through although the empty string is falsy. The gene
  \<^verbatim>\<open>A\<close> of the second annotation has one matched peak; the shapes \<open>(0,)\<close> and \<open>(1,)\<close>
  broadcast to \<open>(0,)\<close>, and the call returns an empty array of display names, the peak
  not among them.
\<close>

theorem fallback_mode_adds_instead_of_listing:
  "matched_peaks example_adata ''G1'' = [''chr1:1-100'', ''chr1:200-300''] \<and>
   average_peaks example_adata [''G1''] (AvgStr ''bogus'') None =
     Inl (ValueError,
       \<lparr>x = [], attr_names = [], tmp_names = [],
        warnings = [NotRecognised (AvgStr ''bogus'')], computed = [], attr_ndarray = False\<rparr>) \<and>
   average_peaks example_adata [''G1''] AvgNone None =
     Inl (ValueError,
       \<lparr>x = [], attr_names = [], tmp_names = [], warnings = [], computed = [],
        attr_ndarray = False\<rparr>) \<and>
   py_falsy (AvgStr '''') \<and>
   average_peaks example_adata [''G1''] (AvgStr '''') None =
     Inl (ValueError,
       \<lparr>x = [], attr_names = [], tmp_names = [],
        warnings = [NotRecognised (AvgStr '''')], computed = [], attr_ndarray = False\<rparr>) \<and>
   matched_peaks (example_adata\<lparr>uns_atac := Some (Some colliding_annotation)\<rparr>) ''A'' =
     [''chr1:1-100''] \<and>
   average_peaks (example_adata\<lparr>uns_atac := Some (Some colliding_annotation)\<rparr>) [''A'']
       AvgNone None =
     Inr \<lparr>x = [], attr_names = [], tmp_names = [], warnings = [], computed = [],
          attr_ndarray = True\<rparr>"
  by (simp add: average_peaks_def process_key_def example_adata_def example_annotation_def
      colliding_annotation_def loc_def add_peaks_def np_add_def init_state_def Let_def
      matched_peaks_def matched_rows_def)

text \<open>
  Claim C9. However a call ends, by a return or by an exception, every assignment it
  executed took the mean over a non-empty list of peaks, and every column of the frame
  \<open>x\<close> has as many values as there are observations and is aligned to the observations
  of the matrix: the column comes from an executed assignment of its name, and its value
  at position \<open>i\<close> is the mean, over the peaks of that assignment, of the values of
  observation \<open>i\<close>, the observation at position \<open>i\<close> of \<open>obs_names\<close> (read from the raw
  matrix when \<open>use_raw\<close> is true). The last part is the guard itself: whatever a key asks
  to be averaged, in the modes \<^verbatim>\<open>'total'\<close> and \<^verbatim>\<open>'all'\<close> as in the mode
  \<^verbatim>\<open>'peak_type'\<close>, is a non-empty list.
\<close>

theorem no_mean_over_empty_subset:
  "(\<forall>np \<in> set (computed (outcome (average_peaks adata keys average use_raw))). snd np \<noteq> []) \<and>
   (\<forall>c \<in> set (x (outcome (average_peaks adata keys average use_raw))).
      length (snd c) = length (obs_names adata) \<and>
      (\<exists>ps. (fst c, ps) \<in> set (computed (outcome (average_peaks adata keys average use_raw))) \<and>
         (use_raw \<noteq> Some True \<longrightarrow>
            (\<forall>i < length (obs_names adata).
               snd c ! i = mean_of_peaks (var_names adata) (X adata) ps i)) \<and>
         (use_raw = Some True \<longrightarrow>
            (\<exists>r. raw adata = Some r \<and>
               (\<forall>i < length (obs_names adata).
                  snd c ! i = mean_of_peaks (raw_var_names r) (raw_X r) ps i))))) \<and>
   (\<forall>key \<in> set keys. \<forall>np \<in> set (targets adata average key). snd np \<noteq> [])"
proof -
  let ?o = "outcome (average_peaks adata keys average use_raw)"
  have "means_ok adata init_state"
    by (simp add: means_ok_def init_state_def)
  then have "means_ok adata ?o"
    unfolding average_peaks_def by (rule means_ok_resolve_keys)
  then have 1: "\<forall>np \<in> set (computed ?o). snd np \<noteq> []"
    and 2: "\<forall>c \<in> set (x ?o). length (snd c) = length (obs_names adata)"
    by (simp_all add: means_ok_def)
  have "x init_state = foldl (assign adata use_raw) [] (computed init_state) \<and>
      (\<forall>np \<in> set (computed init_state). \<exists>col. peaks_mean adata use_raw (snd np) = Inr col)"
    by (simp add: init_state_def)
  then have replay: "x ?o = foldl (assign adata use_raw) [] (computed ?o) \<and>
      (\<forall>np \<in> set (computed ?o). \<exists>col. peaks_mean adata use_raw (snd np) = Inr col)"
    unfolding average_peaks_def by (rule replay_resolve_keys)
  have 3: "\<exists>ps. (fst c, ps) \<in> set (computed ?o) \<and>
         (use_raw \<noteq> Some True \<longrightarrow>
            (\<forall>i < length (obs_names adata).
               snd c ! i = mean_of_peaks (var_names adata) (X adata) ps i)) \<and>
         (use_raw = Some True \<longrightarrow>
            (\<exists>r. raw adata = Some r \<and>
               (\<forall>i < length (obs_names adata).
                  snd c ! i = mean_of_peaks (raw_var_names r) (raw_X r) ps i)))"
    if "c \<in> set (x ?o)" for c
    using replay that by (intro columns_are_means) simp_all
  have 4: "\<forall>key \<in> set keys. \<forall>np \<in> set (targets adata average key). snd np \<noteq> []"
    using targets_subset by (metis prod.collapse)
  from 1 2 3 4 show ?thesis
    by blast
qed

theorem no_mean_over_empty_subset_witness:
  "outcome (average_peaks example_adata [''G1'', ''G2'', ''G3''] (AvgStr ''peak_type'') None) =
     \<lparr>x = [(''G1 (promoter peaks)'', [2, 4]), (''G1 (distal peaks)'', [6, 8])],
      attr_names = [''G1 (promoter peaks)'', ''G1 (distal peaks)''],
      tmp_names = [''G1 (promoter peaks)'', ''G1 (distal peaks)''],
      warnings = [PeaksNotFound ''G2''],
      computed = [(''G1 (promoter peaks)'', [''chr1:1-100'']),
                  (''G1 (distal peaks)'', [''chr1:200-300''])],
          attr_ndarray = False\<rparr> \<and>
   length (obs_names example_adata) = 2 \<and>
   mean_of_peaks (var_names example_adata) (X example_adata) [''chr1:1-100''] 0 = 2 \<and>
   mean_of_peaks (var_names example_adata) (X example_adata) [''chr1:1-100''] 1 = 4 \<and>
   mean_of_peaks (var_names example_adata) (X example_adata) [''chr1:200-300''] 0 = 6 \<and>
   mean_of_peaks (var_names example_adata) (X example_adata) [''chr1:200-300''] 1 = 8 \<and>
   list_all (\<lambda>np. snd np \<noteq> [])
     (computed (outcome
       (average_peaks example_adata [''G1'', ''G2'', ''G3''] (AvgStr ''peak_type'') None)))"
proof -
  have "outcome (average_peaks example_adata [''G1'', ''G2'', ''G3''] (AvgStr ''peak_type'') None) =
     \<lparr>x = [(''G1 (promoter peaks)'', [2, 4]), (''G1 (distal peaks)'', [6, 8])],
      attr_names = [''G1 (promoter peaks)'', ''G1 (distal peaks)''],
      tmp_names = [''G1 (promoter peaks)'', ''G1 (distal peaks)''],
      warnings = [PeaksNotFound ''G2''],
      computed = [(''G1 (promoter peaks)'', [''chr1:1-100'']),
                  (''G1 (distal peaks)'', [''chr1:200-300''])],
          attr_ndarray = False\<rparr>"
    by (simp add: average_peaks_def process_key_def example_adata_def example_annotation_def
        loc_def store_mean_def peaks_mean_def mean_axis1_def row_mean_def init_state_def Let_def
        peak_dict_def outcome_def)
  moreover have "length (obs_names example_adata) = 2"
    by (simp add: example_adata_def)
  moreover have
    "mean_of_peaks (var_names example_adata) (X example_adata) [''chr1:1-100''] 0 = 2"
    "mean_of_peaks (var_names example_adata) (X example_adata) [''chr1:1-100''] 1 = 4"
    "mean_of_peaks (var_names example_adata) (X example_adata) [''chr1:200-300''] 0 = 6"
    "mean_of_peaks (var_names example_adata) (X example_adata) [''chr1:200-300''] 1 = 8"
    by (simp_all add: mean_of_peaks_def example_adata_def)
  ultimately show ?thesis
    using no_mean_over_empty_subset [of example_adata "[''G1'', ''G2'', ''G3'']" "AvgStr ''peak_type''" None]
    unfolding list_all_iff by blast
qed

text \<open>
  Claim C7, as amended. When a call returns, \<open>tmp_names\<close> (the new names) is a
  subsequence of \<open>attr_names\<close> (the display names): it holds the names that the gene keys
  generate for aggregation, in order, whether their column was computed or not, since
  lines 38 and 58 append the name before the test of lines 40 and 60. The columns that
  were computed are those of the new names that are not columns of \<open>obs\<close>, and they are
  the columns of the frame \<open>x\<close>; so no column of the frame has the name of a column of
  \<open>obs\<close>.
\<close>

theorem new_names_and_derived_columns:
  assumes "average_peaks adata keys average use_raw = Inr s"
  shows "subseq (tmp_names s) (attr_names s) \<and>
    tmp_names s = concat (map (\<lambda>k. map fst (targets adata average k)) keys) \<and>
    map fst (computed s) = filter (\<lambda>n. n \<notin> set (obs_columns adata)) (tmp_names s) \<and>
    set (map fst (x s)) = set (tmp_names s) - set (obs_columns adata) \<and>
    set (map fst (x s)) \<inter> set (obs_columns adata) = {}"
proof -
  note d = average_peaks_Inr_D [OF assms]
  have sub: "subseq (tmp_names s) (attr_names s)"
  proof (cases "aggregating average")
    case True
    with d(2) have "attr_names s = concat (map (listed adata average) keys)"
      by simp
    then show ?thesis
      unfolding d(1) by (simp add: subseq_concat_map subseq_targets_listed)
  next
    case False
    then have "tmp_names s = []"
      unfolding d(1) by (simp add: targets_other)
    then show ?thesis by simp
  qed
  have comp: "map fst (computed s) = filter (\<lambda>n. n \<notin> set (obs_columns adata)) (tmp_names s)"
    by (rule names_computed [OF assms])
  have "set (map fst (x s)) = set (map fst (computed s))"
    unfolding d(4) by (simp add: names_foldl_assign)
  with comp have cols: "set (map fst (x s)) = set (tmp_names s) - set (obs_columns adata)"
    by auto
  from sub d(1) comp cols show ?thesis
    by auto
qed

text \<open>
  A call where \<open>obs\<close> already has the column of the distal peaks: both names are new
  names, one column is computed.
\<close>

theorem new_names_and_derived_columns_witness:
  "average_peaks (example_adata\<lparr>obs_columns := [''batch'', ''G1 (distal peaks)'']\<rparr>)
      [''batch'', ''G1''] (AvgStr ''peak_type'') None =
     Inr \<lparr>x = [(''G1 (promoter peaks)'', [2, 4])],
          attr_names = [''batch'', ''G1 (promoter peaks)'', ''G1 (distal peaks)''],
          tmp_names = [''G1 (promoter peaks)'', ''G1 (distal peaks)''],
          warnings = [],
          computed = [(''G1 (promoter peaks)'', [''chr1:1-100''])],
          attr_ndarray = False\<rparr> \<and>
   subseq [''G1 (promoter peaks)'', ''G1 (distal peaks)'']
     [''batch'', ''G1 (promoter peaks)'', ''G1 (distal peaks)'']"
proof -
  have run: "average_peaks (example_adata\<lparr>obs_columns := [''batch'', ''G1 (distal peaks)'']\<rparr>)
      [''batch'', ''G1''] (AvgStr ''peak_type'') None =
     Inr \<lparr>x = [(''G1 (promoter peaks)'', [2, 4])],
          attr_names = [''batch'', ''G1 (promoter peaks)'', ''G1 (distal peaks)''],
          tmp_names = [''G1 (promoter peaks)'', ''G1 (distal peaks)''],
          warnings = [],
          computed = [(''G1 (promoter peaks)'', [''chr1:1-100''])],
          attr_ndarray = False\<rparr>"
    by (simp add: average_peaks_def process_key_def example_adata_def example_annotation_def
        loc_def store_mean_def peaks_mean_def mean_axis1_def row_mean_def init_state_def Let_def
        peak_dict_def)
  from new_names_and_derived_columns [OF run]
  have "subseq
      (tmp_names \<lparr>x = [(''G1 (promoter peaks)'', [2, 4])],
          attr_names = [''batch'', ''G1 (promoter peaks)'', ''G1 (distal peaks)''],
          tmp_names = [''G1 (promoter peaks)'', ''G1 (distal peaks)''],
          warnings = [],
          computed = [(''G1 (promoter peaks)'', [''chr1:1-100''])],
          attr_ndarray = False\<rparr>)
      (attr_names \<lparr>x = [(''G1 (promoter peaks)'', [2, 4])],
          attr_names = [''batch'', ''G1 (promoter peaks)'', ''G1 (distal peaks)''],
          tmp_names = [''G1 (promoter peaks)'', ''G1 (distal peaks)''],
          warnings = [],
          computed = [(''G1 (promoter peaks)'', [''chr1:1-100''])],
          attr_ndarray = False\<rparr>)"
    by (rule conjunct1)
  then have "subseq [''G1 (promoter peaks)'', ''G1 (distal peaks)'']
     [''batch'', ''G1 (promoter peaks)'', ''G1 (distal peaks)'']"
    by (simp only: state.simps)
  with run show ?thesis
    by (rule conjI)
qed

text \<open>
  Claim C7 as stated fails: with a column \<^verbatim>\<open>G1 (all peaks)\<close> in \<open>obs\<close>, that name is
  returned among the new names although nothing was computed for it.
\<close>

theorem new_names_counterexample:
  "average_peaks (example_adata\<lparr>obs_columns := [''batch'', ''G1 (all peaks)'']\<rparr>)
      [''G1''] (AvgStr ''total'') None =
     Inr \<lparr>x = [], attr_names = [''G1 (all peaks)''], tmp_names = [''G1 (all peaks)''],
          warnings = [], computed = [],
          attr_ndarray = False\<rparr> \<and>
   ''G1 (all peaks)'' \<in> set (obs_columns (example_adata\<lparr>obs_columns := [''batch'', ''G1 (all peaks)'']\<rparr>))"
  by (simp add: average_peaks_def process_key_def example_adata_def example_annotation_def
      loc_def store_mean_def init_state_def Let_def)

text \<open>
  Claim C6, as amended. When a call returns, every name \<open>n\<close> is computed as often as
  it occurs among the new names, unless \<open>obs\<close> has a column \<open>n\<close>, and then it is never
  computed: the test of lines 40 and 60 looks at \<^verbatim>\<open>adata.obs.columns\<close>, not at the frame
  \<open>x\<close> built so far. The name is listed among the display names at least as often as
  among the new names, so each time it arises. The frame has one column for each name,
  and it is the result of the executed assignments in their order, so a later assignment
  replaces the column of an earlier one. In the modes \<^verbatim>\<open>'total'\<close> and \<^verbatim>\<open>'all'\<close>, a gene
  key with matched peaks gives its name as often as the key is requested.
\<close>

theorem repeated_name_is_recomputed:
  assumes "average_peaks adata keys average use_raw = Inr s"
  shows "count_list (map fst (computed s)) n =
      (if n \<in> set (obs_columns adata) then 0 else count_list (tmp_names s) n) \<and>
    count_list (tmp_names s) n \<le> count_list (attr_names s) n \<and>
    distinct (map fst (x s)) \<and>
    x s = foldl (assign adata use_raw) [] (computed s) \<and>
    ((average = AvgStr ''total'' \<or> average = AvgStr ''all'') \<and> \<not> is_direct adata key \<and>
       matched_rows adata key \<noteq> [] \<longrightarrow>
       count_list (tmp_names s) (key @ '' (all peaks)'') = count_list keys key)"
proof -
  note d = average_peaks_Inr_D [OF assms]
  have a: "count_list (map fst (computed s)) n =
      (if n \<in> set (obs_columns adata) then 0 else count_list (tmp_names s) n)"
    unfolding names_computed [OF assms] by (simp add: count_list_filter)
  have "subseq (tmp_names s) (attr_names s)"
  proof (cases "aggregating average")
    case True
    with d(2) have "attr_names s = concat (map (listed adata average) keys)"
      by simp
    then show ?thesis
      unfolding d(1) by (simp add: subseq_concat_map subseq_targets_listed)
  next
    case False
    then have "tmp_names s = []"
      unfolding d(1) by (simp add: targets_other)
    then show ?thesis by simp
  qed
  then have b: "count_list (tmp_names s) n \<le> count_list (attr_names s) n"
    by (rule subseq_count_list)
  have c: "distinct (map fst (x s))"
    unfolding d(4) by (rule distinct_foldl_assign) simp
  have e: "(average = AvgStr ''total'' \<or> average = AvgStr ''all'') \<and> \<not> is_direct adata key \<and>
       matched_rows adata key \<noteq> [] \<longrightarrow>
       count_list (tmp_names s) (key @ '' (all peaks)'') = count_list keys key"
    unfolding d(1) by (simp add: count_total_names)
  from a b c d(4) e show ?thesis
    by blast
qed

text \<open>The gene \<open>G1\<close> requested twice: two names, two assignments, one column.\<close>

theorem repeated_name_is_recomputed_witness:
  "average_peaks example_adata [''G1'', ''G1''] (AvgStr ''total'') None =
     Inr \<lparr>x = [(''G1 (all peaks)'', [4, 6])],
          attr_names = [''G1 (all peaks)'', ''G1 (all peaks)''],
          tmp_names = [''G1 (all peaks)'', ''G1 (all peaks)''],
          warnings = [],
          computed = [(''G1 (all peaks)'', [''chr1:1-100'', ''chr1:200-300'']),
                      (''G1 (all peaks)'', [''chr1:1-100'', ''chr1:200-300''])],
          attr_ndarray = False\<rparr> \<and>
   \<not> is_direct example_adata ''G1'' \<and> matched_rows example_adata ''G1'' \<noteq> [] \<and>
   count_list [''G1 (all peaks)'', ''G1 (all peaks)''] (''G1'' @ '' (all peaks)'') =
     count_list [''G1'', ''G1''] ''G1''"
proof -
  let ?s = "\<lparr>x = [(''G1 (all peaks)'', [4, 6])],
          attr_names = [''G1 (all peaks)'', ''G1 (all peaks)''],
          tmp_names = [''G1 (all peaks)'', ''G1 (all peaks)''],
          warnings = [],
          computed = [(''G1 (all peaks)'', [''chr1:1-100'', ''chr1:200-300'']),
                      (''G1 (all peaks)'', [''chr1:1-100'', ''chr1:200-300''])],
          attr_ndarray = False\<rparr>"
  have run: "average_peaks example_adata [''G1'', ''G1''] (AvgStr ''total'') None = Inr ?s"
    by (simp add: average_peaks_def process_key_def example_adata_def example_annotation_def
        loc_def store_mean_def peaks_mean_def mean_axis1_def row_mean_def init_state_def Let_def)
  have g: "\<not> is_direct example_adata ''G1''" "matched_rows example_adata ''G1'' \<noteq> []"
    by (simp_all add: is_direct_def matched_rows_def example_adata_def example_annotation_def)
  from repeated_name_is_recomputed [OF run, of "''G1 (all peaks)''" "''G1''"] g
  have "count_list (tmp_names ?s) (''G1'' @ '' (all peaks)'') = count_list [''G1'', ''G1''] ''G1''"
    by blast
  then have "count_list [''G1 (all peaks)'', ''G1 (all peaks)''] (''G1'' @ '' (all peaks)'') =
     count_list [''G1'', ''G1''] ''G1''"
    by (simp only: state.simps)
  with run g show ?thesis
    by blast
qed

text \<open>
  Claim C6 as stated fails. With \<open>G1\<close> requested twice the assignment of line 44 is
  executed twice, the second time with the column already in \<open>x\<close>. That the second
  occurrence does not reuse the column shows in the frame when two keys give the same
  name: key \<^verbatim>\<open>A\<close> alone gives the column \<open>[2, 4]\<close>, and after the key \<^verbatim>\<open>A (x\<close> the
  column of that name is \<open>[6, 8]\<close>, the mean over the peak of the second key.
\<close>

theorem computed_once_counterexample:
  "average_peaks example_adata [''G1'', ''G1''] (AvgStr ''total'') None =
     Inr \<lparr>x = [(''G1 (all peaks)'', [4, 6])],
          attr_names = [''G1 (all peaks)'', ''G1 (all peaks)''],
          tmp_names = [''G1 (all peaks)'', ''G1 (all peaks)''],
          warnings = [],
          computed = [(''G1 (all peaks)'', [''chr1:1-100'', ''chr1:200-300'']),
                      (''G1 (all peaks)'', [''chr1:1-100'', ''chr1:200-300''])],
          attr_ndarray = False\<rparr> \<and>
   average_peaks (example_adata\<lparr>uns_atac := Some (Some colliding_annotation)\<rparr>) [''A'']
       (AvgStr ''peak_type'') None =
     Inr \<lparr>x = [(''A (x (y peaks)'', [2, 4])],
          attr_names = [''A (x (y peaks)''],
          tmp_names = [''A (x (y peaks)''],
          warnings = [],
          computed = [(''A (x (y peaks)'', [''chr1:1-100''])],
          attr_ndarray = False\<rparr> \<and>
   average_peaks (example_adata\<lparr>uns_atac := Some (Some colliding_annotation)\<rparr>) [''A'', ''A (x'']
       (AvgStr ''peak_type'') None =
     Inr \<lparr>x = [(''A (x (y peaks)'', [6, 8])],
          attr_names = [''A (x (y peaks)'', ''A (x (y peaks)''],
          tmp_names = [''A (x (y peaks)'', ''A (x (y peaks)''],
          warnings = [],
          computed = [(''A (x (y peaks)'', [''chr1:1-100'']),
                      (''A (x (y peaks)'', [''chr1:200-300''])],
          attr_ndarray = False\<rparr>"
  by (simp add: average_peaks_def process_key_def example_adata_def colliding_annotation_def
      example_annotation_def loc_def store_mean_def peaks_mean_def mean_axis1_def row_mean_def
      init_state_def Let_def peak_dict_def)

text \<open>
  Claim C1, as amended. Let \<open>key\<close> be a gene key of the call with matched peaks, in the mode
  \<^verbatim>\<open>'total'\<close> or \<^verbatim>\<open>'all'\<close>, and let \<open>obs\<close> have no column \<^verbatim>\<open><key> (all peaks)\<close>. When the
  call returns, the frame has exactly one column of that name; it has one value per
  observation, in the order of \<open>obs_names\<close>, and the value of observation \<open>i\<close> is the mean
  of the matched peaks' values of that observation, read from the processed matrix when
  \<open>use_raw\<close> is not true and from the raw matrix, which then is there and has the peaks,
  when it is true. The call does return when every key is a direct key or a label of the
  annotation and, for \<open>use_raw\<close> true, the raw matrix has the features. (When \<open>obs\<close> has a
  column of that name, no column is derived: see the counterexample.)
\<close>

theorem total_mode_column:
  assumes "average = AvgStr ''total'' \<or> average = AvgStr ''all''"
    and "\<not> is_direct adata key" and "matched_peaks adata key \<noteq> []"
    and "key @ '' (all peaks)'' \<notin> set (obs_columns adata)"
    and "key \<in> set keys"
  shows "(average_peaks adata keys average use_raw = Inr s \<longrightarrow>
      (\<exists>col. map_of (x s) (key @ '' (all peaks)'') = Some col \<and>
         count_list (map fst (x s)) (key @ '' (all peaks)'') = 1 \<and>
         length col = length (obs_names adata) \<and>
         (use_raw \<noteq> Some True \<longrightarrow>
            (\<forall>i < length (obs_names adata).
               col ! i = mean_of_peaks (var_names adata) (X adata) (matched_peaks adata key) i)) \<and>
         (use_raw = Some True \<longrightarrow>
            (\<exists>r. raw adata = Some r \<and> set (matched_peaks adata key) \<subseteq> set (raw_var_names r) \<and>
               (\<forall>i < length (obs_names adata).
                  col ! i = mean_of_peaks (raw_var_names r) (raw_X r) (matched_peaks adata key) i))))) \<and>
    ((\<forall>k \<in> set keys. known_key adata k) \<and> raw_ready adata use_raw \<longrightarrow>
       (\<exists>s'. average_peaks adata keys average use_raw = Inr s'))"
proof (intro conjI impI)
  assume "(\<forall>k \<in> set keys. known_key adata k) \<and> raw_ready adata use_raw"
  moreover from assms(1) have "aggregating average"
    by (auto simp: aggregating_def)
  ultimately show "\<exists>s'. average_peaks adata keys average use_raw = Inr s'"
    by (simp add: average_peaks_returns)
next
  assume run: "average_peaks adata keys average use_raw = Inr s"
  note d = average_peaks_Inr_D [OF run]
  let ?n = "key @ '' (all peaks)''"
  let ?ps = "matched_peaks adata key"
  from assms(3) have rows: "matched_rows adata key \<noteq> []"
    by (auto simp: matched_peaks_def)
  with assms(1,2,4) have "not_in_obs adata (targets adata average key) = [(?n, ?ps)]"
    by (simp add: targets_total not_in_obs_def)
  with assms(5) have mem: "(?n, ?ps) \<in> set (computed s)"
    unfolding d(3) by force
  have uniq: "ps' = ?ps" if "(?n, ps') \<in> set (computed s)" for ps'
  proof -
    from that obtain k where "(?n, ps') \<in> set (targets adata average k)"
      unfolding d(3) by (auto simp: not_in_obs_def)
    with assms(1) show ?thesis
      by (auto simp: targets_total split: if_splits)
  qed
  have "map_of (rev (computed s)) ?n = Some ?ps"
  proof (rule map_of_unique)
    from mem show "(?n, ?ps) \<in> set (rev (computed s))"
      by simp
  next
    fix ps'
    assume "(?n, ps') \<in> set (rev (computed s))"
    then have "(?n, ps') \<in> set (computed s)"
      by simp
    then show "ps' = ?ps"
      by (rule uniq)
  qed
  then have frame: "map_of (x s) ?n = Some (the (column_of adata use_raw ?ps))"
    unfolding d(4) by (simp add: map_of_foldl_assign)
  from d(5) mem obtain col where col: "peaks_mean adata use_raw ?ps = Inr col"
    by force
  with frame have 1: "map_of (x s) ?n = Some col"
    by (simp add: column_of_def)
  have "distinct (map fst (x s))"
    unfolding d(4) by (rule distinct_foldl_assign) simp
  moreover from 1 have "?n \<in> set (map fst (x s))"
    by (force dest: map_of_SomeD)
  ultimately have 2: "count_list (map fst (x s)) ?n = 1"
    by (rule count_list_distinct)
  from 1 2 peaks_mean_Inr_D [OF col]
  show "\<exists>col. map_of (x s) ?n = Some col \<and>
         count_list (map fst (x s)) ?n = 1 \<and>
         length col = length (obs_names adata) \<and>
         (use_raw \<noteq> Some True \<longrightarrow>
            (\<forall>i < length (obs_names adata).
               col ! i = mean_of_peaks (var_names adata) (X adata) ?ps i)) \<and>
         (use_raw = Some True \<longrightarrow>
            (\<exists>r. raw adata = Some r \<and> set ?ps \<subseteq> set (raw_var_names r) \<and>
               (\<forall>i < length (obs_names adata).
                  col ! i = mean_of_peaks (raw_var_names r) (raw_X r) ?ps i)))"
    by blast
qed

text \<open>
  The example of the specification: the peaks of \<open>G1\<close> have the values 2, 4 and 6, 8, and
  the derived column is 4, 6; from the raw matrix it is 40, 60.
\<close>

theorem total_mode_column_witness:
  "\<not> is_direct example_adata ''G1'' \<and>
   matched_peaks example_adata ''G1'' = [''chr1:1-100'', ''chr1:200-300''] \<and>
   ''G1'' @ '' (all peaks)'' \<notin> set (obs_columns example_adata) \<and>
   average_peaks example_adata [''batch'', ''G1''] (AvgStr ''total'') None =
     Inr \<lparr>x = [(''G1 (all peaks)'', [4, 6])],
          attr_names = [''batch'', ''G1 (all peaks)''],
          tmp_names = [''G1 (all peaks)''],
          warnings = [],
          computed = [(''G1 (all peaks)'', [''chr1:1-100'', ''chr1:200-300''])],
          attr_ndarray = False\<rparr> \<and>
   known_key example_adata ''batch'' \<and> known_key example_adata ''G1'' \<and>
   raw_ready example_adata None \<and>
   count_list [''G1 (all peaks)''] (''G1'' @ '' (all peaks)'') = 1 \<and>
   mean_of_peaks (var_names example_adata) (X example_adata)
     [''chr1:1-100'', ''chr1:200-300''] 0 = 4 \<and>
   mean_of_peaks (var_names example_adata) (X example_adata)
     [''chr1:1-100'', ''chr1:200-300''] 1 = 6 \<and>
   average_peaks (example_adata\<lparr>raw := Some example_raw\<rparr>) [''G1''] (AvgStr ''all'') (Some True) =
     Inr \<lparr>x = [(''G1 (all peaks)'', [40, 60])],
          attr_names = [''G1 (all peaks)''],
          tmp_names = [''G1 (all peaks)''],
          warnings = [],
          computed = [(''G1 (all peaks)'', [''chr1:1-100'', ''chr1:200-300''])],
          attr_ndarray = False\<rparr>"
proof -
  let ?s = "\<lparr>x = [(''G1 (all peaks)'', [4, 6])],
          attr_names = [''batch'', ''G1 (all peaks)''],
          tmp_names = [''G1 (all peaks)''],
          warnings = [],
          computed = [(''G1 (all peaks)'', [''chr1:1-100'', ''chr1:200-300''])],
          attr_ndarray = False\<rparr>"
  have d: "\<not> is_direct example_adata ''G1''"
    by (simp add: is_direct_def example_adata_def)
  have m: "matched_peaks example_adata ''G1'' = [''chr1:1-100'', ''chr1:200-300'']"
    by (simp add: matched_peaks_def matched_rows_def example_adata_def example_annotation_def)
  then have ne: "matched_peaks example_adata ''G1'' \<noteq> []"
    by simp
  have o: "''G1'' @ '' (all peaks)'' \<notin> set (obs_columns example_adata)"
    by (simp add: example_adata_def)
  have k: "''G1'' \<in> set [''batch'', ''G1'']"
    by simp
  have run: "average_peaks example_adata [''batch'', ''G1''] (AvgStr ''total'') None = Inr ?s"
    by (simp add: average_peaks_def process_key_def example_adata_def example_annotation_def
        loc_def store_mean_def peaks_mean_def mean_axis1_def row_mean_def init_state_def Let_def)
  have raw_run: "average_peaks (example_adata\<lparr>raw := Some example_raw\<rparr>) [''G1''] (AvgStr ''all'')
      (Some True) =
     Inr \<lparr>x = [(''G1 (all peaks)'', [40, 60])],
          attr_names = [''G1 (all peaks)''],
          tmp_names = [''G1 (all peaks)''],
          warnings = [],
          computed = [(''G1 (all peaks)'', [''chr1:1-100'', ''chr1:200-300''])],
          attr_ndarray = False\<rparr>"
    by (simp add: average_peaks_def process_key_def example_adata_def example_annotation_def
        example_raw_def loc_def store_mean_def peaks_mean_def mean_axis1_def row_mean_def
        init_state_def Let_def)
  have means: "mean_of_peaks (var_names example_adata) (X example_adata)
       [''chr1:1-100'', ''chr1:200-300''] 0 = 4"
     "mean_of_peaks (var_names example_adata) (X example_adata)
       [''chr1:1-100'', ''chr1:200-300''] 1 = 6"
    by (simp_all add: mean_of_peaks_def example_adata_def)
  have mode: "AvgStr ''total'' = AvgStr ''total'' \<or> AvgStr ''total'' = AvgStr ''all''"
    by simp
  from total_mode_column [OF mode d ne o k, of None ?s] run
  have "count_list (map fst (x ?s)) (''G1'' @ '' (all peaks)'') = 1"
    by blast
  then have "count_list [''G1 (all peaks)''] (''G1'' @ '' (all peaks)'') = 1"
    by simp
  moreover have "known_key example_adata ''batch''" "known_key example_adata ''G1''"
    "raw_ready example_adata None"
    by (simp_all add: known_key_def raw_ready_def is_direct_def example_adata_def
        example_annotation_def)
  ultimately show ?thesis
    using d m o run means raw_run by blast
qed

text \<open>
  Claim C1 as stated fails: when \<open>obs\<close> has a column \<^verbatim>\<open>G1 (all peaks)\<close>, the gene key
  \<open>G1\<close> with its two matched peaks produces no derived column.
\<close>

theorem total_mode_counterexample:
  "\<not> is_direct (example_adata\<lparr>obs_columns := [''G1 (all peaks)'']\<rparr>) ''G1'' \<and>
   matched_peaks (example_adata\<lparr>obs_columns := [''G1 (all peaks)'']\<rparr>) ''G1'' =
     [''chr1:1-100'', ''chr1:200-300''] \<and>
   average_peaks (example_adata\<lparr>obs_columns := [''G1 (all peaks)'']\<rparr>) [''G1''] (AvgStr ''all'') None =
     Inr \<lparr>x = [], attr_names = [''G1 (all peaks)''], tmp_names = [''G1 (all peaks)''],
          warnings = [], computed = [],
          attr_ndarray = False\<rparr>"
  by (simp add: average_peaks_def process_key_def example_adata_def example_annotation_def
      loc_def store_mean_def init_state_def Let_def is_direct_def matched_peaks_def
      matched_rows_def)

text \<open>
  Claim C2, as amended. For a gene key with matched peaks in the mode \<^verbatim>\<open>'peak_type'\<close>,
  the resolver partitions the matched peaks by their peak type: it asks for one column
  for each distinct type, named \<^verbatim>\<open><key> (<type> peaks)\<close>, over the peaks of that type, in
  the order in which the types are first met. These names are appended, in that order, to
  the display names and the new names whenever the key is processed. Let the key be one
  of the keys of a call, in any place and any number of times, and let no other key of
  the call ask for a column of one of these names. When the call returns, the frame has
  exactly one column for each type whose name is not a column of \<open>obs\<close>, these columns
  stand in the order of the types, and each holds, for each observation, the mean over
  the peaks of its type (from the raw matrix when \<open>use_raw\<close> is true). So a gene with two
  peak types gives two columns when \<open>obs\<close> has neither name. The call returns when every
  key is a direct key or a label of the annotation and, for \<open>use_raw\<close> true, the raw
  matrix has the features.
\<close>

theorem peak_type_mode_columns:
  assumes "\<not> is_direct adata key" and "matched_rows adata key \<noteq> []"
    and "key \<in> set keys"
    and "\<forall>k \<in> set keys. k \<noteq> key \<longrightarrow>
       set (map fst (targets adata (AvgStr ''peak_type'') k)) \<inter>
         type_name key ` set (peak_types adata key) = {}"
  shows "targets adata (AvgStr ''peak_type'') key =
      map (\<lambda>t. (type_name key t, typed_peaks adata key t)) (peak_types adata key) \<and>
    (process_key adata (AvgStr ''peak_type'') use_raw s key = Inr s' \<longrightarrow>
       attr_names s' = attr_names s @ map (type_name key) (peak_types adata key) \<and>
       tmp_names s' = tmp_names s @ map (type_name key) (peak_types adata key)) \<and>
    (average_peaks adata keys (AvgStr ''peak_type'') use_raw = Inr sf \<longrightarrow>
       filter (\<lambda>n. n \<in> type_name key ` set (peak_types adata key)) (map fst (x sf)) =
         map (type_name key)
           (filter (\<lambda>t. type_name key t \<notin> set (obs_columns adata)) (peak_types adata key)) \<and>
       (\<forall>t \<in> set (peak_types adata key). type_name key t \<notin> set (obs_columns adata) \<longrightarrow>
          (\<exists>col. map_of (x sf) (type_name key t) = Some col \<and>
             count_list (map fst (x sf)) (type_name key t) = 1 \<and>
             length col = length (obs_names adata) \<and>
             (use_raw \<noteq> Some True \<longrightarrow>
                (\<forall>i < length (obs_names adata).
                   col ! i = mean_of_peaks (var_names adata) (X adata) (typed_peaks adata key t) i)) \<and>
             (use_raw = Some True \<longrightarrow>
                (\<exists>r. raw adata = Some r \<and> set (typed_peaks adata key t) \<subseteq> set (raw_var_names r) \<and>
                   (\<forall>i < length (obs_names adata).
                      col ! i =
                        mean_of_peaks (raw_var_names r) (raw_X r) (typed_peaks adata key t) i)))))) \<and>
    ((\<forall>k \<in> set keys. known_key adata k) \<and> raw_ready adata use_raw \<longrightarrow>
       (\<exists>sf'. average_peaks adata keys (AvgStr ''peak_type'') use_raw = Inr sf'))"
proof (intro conjI impI ballI)
  let ?pt = "AvgStr ''peak_type''"
  let ?N = "type_name key ` set (peak_types adata key)"
  let ?F = "map (type_name key)
      (filter (\<lambda>t. type_name key t \<notin> set (obs_columns adata)) (peak_types adata key))"
  have agg: "aggregating ?pt"
    by (simp add: aggregating_def)
  show t: "targets adata ?pt key =
      map (\<lambda>t. (type_name key t, typed_peaks adata key t)) (peak_types adata key)"
    by (rule targets_peak_type [OF assms(1,2)])
  have names: "map fst (targets adata ?pt key) = map (type_name key) (peak_types adata key)"
    unfolding t by (simp add: comp_def)
  {
    assume "process_key adata ?pt use_raw s key = Inr s'"
    from process_key_Inr_fields [OF this] assms(1) names agg
    show "attr_names s' = attr_names s @ map (type_name key) (peak_types adata key)"
      and "tmp_names s' = tmp_names s @ map (type_name key) (peak_types adata key)"
      by (simp_all add: listed_def)
  }
  {
    assume "(\<forall>k \<in> set keys. known_key adata k) \<and> raw_ready adata use_raw"
    with agg show "\<exists>sf'. average_peaks adata keys ?pt use_raw = Inr sf'"
      by (simp add: average_peaks_returns)
  }
  {
    assume run: "average_peaks adata keys ?pt use_raw = Inr sf"
    note d = average_peaks_Inr_D [OF run]
    have own: "map fst (not_in_obs adata (targets adata ?pt key)) = ?F"
      by (simp add: map_fst_not_in_obs names filter_map comp_def)
    have per_key: "filter (\<lambda>n. n \<in> ?N) (map fst (not_in_obs adata (targets adata ?pt k))) =
        (if k = key then ?F else [])" if "k \<in> set keys" for k
    proof (cases "k = key")
      case True
      have "filter (\<lambda>n. n \<in> ?N) ?F = ?F"
        by (rule filter_True) auto
      with True own show ?thesis by simp
    next
      case False
      with that assms(4) have "set (map fst (targets adata ?pt k)) \<inter> ?N = {}"
        by blast
      moreover have "set (map fst (not_in_obs adata (targets adata ?pt k))) \<subseteq>
          set (map fst (targets adata ?pt k))"
        by (auto simp: not_in_obs_def)
      ultimately have "\<forall>n \<in> set (map fst (not_in_obs adata (targets adata ?pt k))). n \<notin> ?N"
        by blast
      then have "filter (\<lambda>n. n \<in> ?N) (map fst (not_in_obs adata (targets adata ?pt k))) = []"
        by (simp only: filter_False)
      with False show ?thesis by simp
    qed
    have "filter (\<lambda>n. n \<in> ?N) (map fst (computed sf)) =
        concat (map (\<lambda>k. filter (\<lambda>n. n \<in> ?N) (map fst (not_in_obs adata (targets adata ?pt k)))) keys)"
      unfolding d(3) by (simp add: map_concat filter_concat comp_def)
    also have "\<dots> = concat (map (\<lambda>k. if k = key then ?F else []) keys)"
      using per_key by (intro arg_cong [where f = concat] map_cong) simp_all
    finally have "first_seen (filter (\<lambda>n. n \<in> ?N) (map fst (computed sf))) =
        first_seen (concat (map (\<lambda>k. if k = key then ?F else []) keys))"
      by simp
    also have "\<dots> = ?F"
      using assms(3) distinct_type_names [of key adata]
      by (simp add: first_seen_repeats distinct_map_filter)
    finally have "filter (\<lambda>n. n \<in> ?N) (first_seen (map fst (computed sf))) = ?F"
      by (simp add: filter_first_seen)
    then show "filter (\<lambda>n. n \<in> ?N) (map fst (x sf)) = ?F"
      unfolding d(4) by (simp add: map_fst_foldl_assign)
    fix t
    assume t_in: "t \<in> set (peak_types adata key)"
      and fresh: "type_name key t \<notin> set (obs_columns adata)"
    let ?n = "type_name key t"
    let ?ps = "typed_peaks adata key t"
    from t_in fresh have "(?n, ?ps) \<in> set (not_in_obs adata (targets adata ?pt key))"
      unfolding t by (auto simp: not_in_obs_def)
    with assms(3) have mem: "(?n, ?ps) \<in> set (computed sf)"
      unfolding d(3) by auto
    have uniq: "ps' = ?ps" if "(?n, ps') \<in> set (computed sf)" for ps'
    proof -
      from that obtain k where k: "k \<in> set keys" and tg: "(?n, ps') \<in> set (targets adata ?pt k)"
        unfolding d(3) by (auto simp: not_in_obs_def)
      have "k = key"
      proof (rule ccontr)
        assume "k \<noteq> key"
        with k assms(4) have "set (map fst (targets adata ?pt k)) \<inter> ?N = {}"
          by blast
        moreover from tg have "?n \<in> set (map fst (targets adata ?pt k))"
          by force
        moreover from t_in have "?n \<in> ?N"
          by simp
        ultimately show False by blast
      qed
      with tg t have "(?n, ps') \<in>
          set (map (\<lambda>t. (type_name key t, typed_peaks adata key t)) (peak_types adata key))"
        by simp
      then obtain t' where "type_name key t' = ?n" and ps': "ps' = typed_peaks adata key t'"
        by auto
      then have "t' = t"
        by (simp add: type_name_def)
      with ps' show ?thesis by simp
    qed
    have "map_of (rev (computed sf)) ?n = Some ?ps"
    proof (rule map_of_unique)
      from mem show "(?n, ?ps) \<in> set (rev (computed sf))"
        by simp
    next
      fix ps'
      assume "(?n, ps') \<in> set (rev (computed sf))"
      then have "(?n, ps') \<in> set (computed sf)"
        by simp
      then show "ps' = ?ps"
        by (rule uniq)
    qed
    then have frame: "map_of (x sf) ?n = Some (the (column_of adata use_raw ?ps))"
      unfolding d(4) by (simp add: map_of_foldl_assign)
    from d(5) mem obtain col where col: "peaks_mean adata use_raw ?ps = Inr col"
      by force
    with frame have 1: "map_of (x sf) ?n = Some col"
      by (simp add: column_of_def)
    have "distinct (map fst (x sf))"
      unfolding d(4) by (rule distinct_foldl_assign) simp
    moreover from 1 have "?n \<in> set (map fst (x sf))"
      by (force dest: map_of_SomeD)
    ultimately have 2: "count_list (map fst (x sf)) ?n = 1"
      by (rule count_list_distinct)
    from 1 2 peaks_mean_Inr_D [OF col]
    show "\<exists>col. map_of (x sf) ?n = Some col \<and>
             count_list (map fst (x sf)) ?n = 1 \<and>
             length col = length (obs_names adata) \<and>
             (use_raw \<noteq> Some True \<longrightarrow>
                (\<forall>i < length (obs_names adata).
                   col ! i = mean_of_peaks (var_names adata) (X adata) ?ps i)) \<and>
             (use_raw = Some True \<longrightarrow>
                (\<exists>r. raw adata = Some r \<and> set ?ps \<subseteq> set (raw_var_names r) \<and>
                   (\<forall>i < length (obs_names adata).
                      col ! i = mean_of_peaks (raw_var_names r) (raw_X r) ?ps i)))"
      by blast
  }
qed

text \<open>
  The gene \<open>G1\<close> of the example, requested after the column \<^verbatim>\<open>batch\<close>: a promoter peak
  and a distal peak, two columns.
\<close>

theorem peak_type_mode_columns_witness:
  "\<not> is_direct example_adata ''G1'' \<and>
   matched_rows example_adata ''G1'' \<noteq> [] \<and>
   targets example_adata (AvgStr ''peak_type'') ''batch'' = [] \<and>
   peak_types example_adata ''G1'' = [''promoter'', ''distal''] \<and>
   targets example_adata (AvgStr ''peak_type'') ''G1'' =
     [(''G1 (promoter peaks)'', [''chr1:1-100'']), (''G1 (distal peaks)'', [''chr1:200-300''])] \<and>
   average_peaks example_adata [''batch'', ''G1''] (AvgStr ''peak_type'') None =
     Inr \<lparr>x = [(''G1 (promoter peaks)'', [2, 4]), (''G1 (distal peaks)'', [6, 8])],
          attr_names = [''batch'', ''G1 (promoter peaks)'', ''G1 (distal peaks)''],
          tmp_names = [''G1 (promoter peaks)'', ''G1 (distal peaks)''],
          warnings = [],
          computed = [(''G1 (promoter peaks)'', [''chr1:1-100'']),
                      (''G1 (distal peaks)'', [''chr1:200-300''])],
          attr_ndarray = False\<rparr> \<and>
   known_key example_adata ''batch'' \<and> known_key example_adata ''G1'' \<and>
   raw_ready example_adata None \<and>
   mean_of_peaks (var_names example_adata) (X example_adata) [''chr1:1-100''] 1 = 4 \<and>
   mean_of_peaks (var_names example_adata) (X example_adata) [''chr1:200-300''] 1 = 8"
proof -
  have d: "\<not> is_direct example_adata ''G1''"
    by (simp add: is_direct_def example_adata_def)
  have m: "matched_rows example_adata ''G1'' \<noteq> []"
    by (simp add: matched_rows_def example_adata_def example_annotation_def)
  have k: "''G1'' \<in> set [''batch'', ''G1'']"
    by simp
  have b: "targets example_adata (AvgStr ''peak_type'') ''batch'' = []"
    by (simp add: targets_def is_direct_def example_adata_def)
  then have nc: "\<forall>k \<in> set [''batch'', ''G1'']. k \<noteq> ''G1'' \<longrightarrow>
       set (map fst (targets example_adata (AvgStr ''peak_type'') k)) \<inter>
         type_name ''G1'' ` set (peak_types example_adata ''G1'') = {}"
    by simp
  have ts: "peak_types example_adata ''G1'' = [''promoter'', ''distal'']"
    by (simp add: peak_types_def first_seen_def matched_rows_def example_adata_def
        example_annotation_def)
  have tp: "typed_peaks example_adata ''G1'' ''promoter'' = [''chr1:1-100'']"
    "typed_peaks example_adata ''G1'' ''distal'' = [''chr1:200-300'']"
    by (simp_all add: typed_peaks_def matched_rows_def example_adata_def example_annotation_def)
  from peak_type_mode_columns [OF d m k nc]
  have "targets example_adata (AvgStr ''peak_type'') ''G1'' =
      map (\<lambda>t. (type_name ''G1'' t, typed_peaks example_adata ''G1'' t))
        (peak_types example_adata ''G1'')"
    by (rule conjunct1)
  then have tg: "targets example_adata (AvgStr ''peak_type'') ''G1'' =
     [(''G1 (promoter peaks)'', [''chr1:1-100'']), (''G1 (distal peaks)'', [''chr1:200-300''])]"
    by (simp add: ts tp type_name_def)
  have run: "average_peaks example_adata [''batch'', ''G1''] (AvgStr ''peak_type'') None =
     Inr \<lparr>x = [(''G1 (promoter peaks)'', [2, 4]), (''G1 (distal peaks)'', [6, 8])],
          attr_names = [''batch'', ''G1 (promoter peaks)'', ''G1 (distal peaks)''],
          tmp_names = [''G1 (promoter peaks)'', ''G1 (distal peaks)''],
          warnings = [],
          computed = [(''G1 (promoter peaks)'', [''chr1:1-100'']),
                      (''G1 (distal peaks)'', [''chr1:200-300''])],
          attr_ndarray = False\<rparr>"
    by (simp add: average_peaks_def process_key_def example_adata_def example_annotation_def
        loc_def store_mean_def peaks_mean_def mean_axis1_def row_mean_def init_state_def Let_def
        peak_dict_def)
  have means: "mean_of_peaks (var_names example_adata) (X example_adata) [''chr1:1-100''] 1 = 4"
    "mean_of_peaks (var_names example_adata) (X example_adata) [''chr1:200-300''] 1 = 8"
    by (simp_all add: mean_of_peaks_def example_adata_def)
  have rr: "known_key example_adata ''batch''" "known_key example_adata ''G1''"
    "raw_ready example_adata None"
    by (simp_all add: known_key_def raw_ready_def is_direct_def example_adata_def
        example_annotation_def)
  from d m b ts tg run means rr show ?thesis
    by blast
qed

text \<open>
  Claim C2 as stated fails: when \<open>obs\<close> has a column \<^verbatim>\<open>G1 (promoter peaks)\<close>, the gene
  \<open>G1\<close> with peaks of two types gives one derived column, not two.
\<close>

theorem peak_type_mode_counterexample:
  "\<not> is_direct (example_adata\<lparr>obs_columns := [''G1 (promoter peaks)'']\<rparr>) ''G1'' \<and>
   peak_types (example_adata\<lparr>obs_columns := [''G1 (promoter peaks)'']\<rparr>) ''G1'' =
     [''promoter'', ''distal''] \<and>
   average_peaks (example_adata\<lparr>obs_columns := [''G1 (promoter peaks)'']\<rparr>) [''G1'']
       (AvgStr ''peak_type'') None =
     Inr \<lparr>x = [(''G1 (distal peaks)'', [6, 8])],
          attr_names = [''G1 (promoter peaks)'', ''G1 (distal peaks)''],
          tmp_names = [''G1 (promoter peaks)'', ''G1 (distal peaks)''],
          warnings = [],
          computed = [(''G1 (distal peaks)'', [''chr1:200-300''])],
          attr_ndarray = False\<rparr>"
  by (simp add: average_peaks_def process_key_def example_adata_def example_annotation_def
      loc_def store_mean_def peaks_mean_def mean_axis1_def row_mean_def init_state_def Let_def
      peak_dict_def is_direct_def peak_types_def first_seen_def matched_rows_def)

end
